theory Spec2Isabelle
  imports Main "HOL-Library.AList" "HOL-Library.Sublist"
begin

section \<open>Values, dictionaries and exceptions\<close>

text \<open>
  A shallow embedding of \<^verbatim>\<open>src/history/models.py\<close>. Python dictionaries are
  association lists with distinct keys, updated with \<open>AList.update\<close> and read with
  \<open>map_of\<close>. A raised exception is a value: a function that may raise returns
  \<open>exn + 'a\<close>, and a function that also changes the store returns the exception (if
  any) together with the store it leaves behind.
\<close>

datatype pyval = PNone | PInt int | PStr string | PDateTime int

type_synonym ('k, 'v) dict = "('k \<times> 'v) list"

definition dict_get :: "('k, 'v) dict \<Rightarrow> 'k \<Rightarrow> 'v \<Rightarrow> 'v" where
  "dict_get d k dflt = (case map_of d k of None \<Rightarrow> dflt | Some v \<Rightarrow> v)"

definition dict_update :: "('k, 'v) dict \<Rightarrow> ('k, 'v) dict \<Rightarrow> ('k, 'v) dict" where
  "dict_update d other = fold (\<lambda>(k, v) acc. AList.update k v acc) other d"

text \<open>Equality of two dictionaries is equality of their contents, whatever the order.\<close>

definition dict_eq :: "('k, 'v) dict \<Rightarrow> ('k, 'v) dict \<Rightarrow> bool" where
  "dict_eq a b = list_all (\<lambda>k. map_of a k = map_of b k) (map fst a @ map fst b)"

text \<open>
  The exception classes the module raises, catches or derives from.
  \<open>HistoricalIntegrityError\<close> is declared with the single base
  \<open>django.db.IntegrityError\<close>; every model has a \<open>DoesNotExist\<close> class of its own.
\<close>

datatype exc_class =
    HistoricalIntegrityError
  | IntegrityError
  | DatabaseError
  | DoesNotExist string
  | ValueError
  | TypeError
  | AttributeError
  | PyException

datatype exn = Exn (exn_class: exc_class) (exn_arg: exn_arg)
and exn_arg = NoArg | Msg string | Cause exn

text \<open>The proper superclasses of a class, nearest first.\<close>

fun exc_bases :: "exc_class \<Rightarrow> exc_class list" where
  "exc_bases HistoricalIntegrityError = [IntegrityError, DatabaseError, PyException]"
| "exc_bases IntegrityError = [DatabaseError, PyException]"
| "exc_bases PyException = []"
| "exc_bases c = [PyException]"

definition issubclass :: "exc_class \<Rightarrow> exc_class \<Rightarrow> bool" where
  "issubclass c d = (c = d \<or> d \<in> set (exc_bases c))"

definition isinstance_exn :: "exn \<Rightarrow> exc_class \<Rightarrow> bool" where
  "isinstance_exn e c = issubclass (exn_class e) c"

section \<open>Fields and tracked types\<close>

text \<open>
  The field classes \<open>copy_fields\<close> tells apart, with the framework's inheritance:
  a one-to-one field is a foreign key, a date-time field is a date field.
\<close>

datatype field_class =
    Field
  | AutoField
  | IntegerField
  | CharField
  | DateField
  | DateTimeField
  | TimeField
  | ForeignKey
  | OneToOneField

fun field_bases :: "field_class \<Rightarrow> field_class list" where
  "field_bases OneToOneField = [ForeignKey, Field]"
| "field_bases DateTimeField = [DateField, Field]"
| "field_bases Field = []"
| "field_bases c = [Field]"

text \<open>
  \<open>rel.to\<close> is a reference to the target class: it is its object name here, and
  the target's primary key (\<open>rel.to._meta.pk\<close>) is read through \<open>pk_of\<close>.
  Every field record carries a \<open>rel\<close> and an \<open>opts_object_name\<close>
  (\<open>field.opts.object_name\<close>); the module reads them on foreign keys only, where the
  framework's constructor always sets them.
\<close>

record rel =
  to :: string
  related_name :: "string option"

record field =
  name :: string
  attname :: string
  cls :: field_class
  null_attr :: bool
  blank :: bool
  primary_key :: bool
  unique_attr :: bool
  db_index :: bool
  auto_now :: bool
  auto_now_add :: bool
  max_length :: "nat option"
  choices :: "(string \<times> string) list"
  default_now :: bool
  opts_object_name :: string
  rel :: rel

definition isinstance :: "field \<Rightarrow> field_class \<Rightarrow> bool" where
  "isinstance f c = (cls f = c \<or> c \<in> set (field_bases (cls f)))"

text \<open>\<open>field.unique\<close> is the framework's property \<open>_unique or primary_key\<close>.\<close>

definition unique :: "field \<Rightarrow> bool" where
  "unique f = (unique_attr f \<or> primary_key f)"

text \<open>A foreign key's attribute name is its name followed by \<open>_id\<close>.\<close>

definition get_attname :: "field \<Rightarrow> string" where
  "get_attname f = (if isinstance f ForeignKey then name f @ ''_id'' else name f)"

record model =
  object_name :: string
  model_module :: string
  meta_fields :: "field list"
  pk :: field
  meta_class :: string

subsection \<open>Strings\<close>

definition lower_char :: "char \<Rightarrow> char" where
  "lower_char c =
     (let n = (of_char c :: nat) in if 65 \<le> n \<and> n \<le> 90 then char_of (n + 32) else c)"

definition lower :: "string \<Rightarrow> string" where
  "lower s = map lower_char s"

text \<open>\<open>a or b\<close> on an optional string: \<open>None\<close> and the empty string are false.\<close>

definition str_or :: "string option \<Rightarrow> string \<Rightarrow> string" where
  "str_or a b = (case a of None \<Rightarrow> b | Some s \<Rightarrow> if s = [] then b else s)"

section \<open>The tracking declaration\<close>

definition PRESERVE :: int where "PRESERVE = 1"
definition CONVERT :: int where "CONVERT = 2"

record historical_records =
  decl_id :: nat
  key_conversions :: "(string, int) dict"
  add_history_properties :: bool
  manager_name :: string

text \<open>
  \<open>__init__\<close>: a missing or empty policy map is the empty map. The object's identity
  is \<open>decl_id\<close>; \<open>manager_name\<close> is set later, by \<open>contribute_to_class\<close>.
\<close>

definition init_historical_records ::
  "nat \<Rightarrow> (string, int) dict option \<Rightarrow> bool \<Rightarrow> historical_records" where
  "init_historical_records i kc ahp =
     \<lparr>decl_id = i,
      key_conversions = (case kc of None \<Rightarrow> [] | Some d \<Rightarrow> d),
      add_history_properties = ahp,
      manager_name = []\<rparr>"

section \<open>Field transformation\<close>

text \<open>
  The body of the loop of \<open>copy_fields\<close>, on one field: the foreign-key branch, then
  the auto field, the date and time flags, and the uniqueness flags.
\<close>

definition convert_foreign_key ::
  "(string \<Rightarrow> field) \<Rightarrow> historical_records \<Rightarrow> field \<Rightarrow> exn + field" where
  "convert_foreign_key pk_of self f =
     (if isinstance f ForeignKey then
        (let conversion = dict_get (key_conversions self) (name f) CONVERT in
         if conversion = CONVERT then
           Inr ((pk_of (to (rel f)))
                  \<lparr>null_attr := null_attr f, blank := blank f, name := get_attname f\<rparr>)
         else if conversion = PRESERVE then
           (let r = rel f;
                related_name' = str_or (related_name r) (lower (opts_object_name f))
            in Inr (f\<lparr>rel := r\<lparr>related_name := Some (related_name' @ ''_historical'')\<rparr>\<rparr>))
         else Inl (Exn ValueError (Msg ''Invalid key conversion type'')))
      else Inr f)"

definition replace_auto_field :: "field \<Rightarrow> field" where
  "replace_auto_field f = (if isinstance f AutoField then f\<lparr>cls := IntegerField\<rparr> else f)"

definition strip_auto_now :: "field \<Rightarrow> field" where
  "strip_auto_now f =
     (if isinstance f DateField \<or> isinstance f TimeField
      then f\<lparr>auto_now := False, auto_now_add := False\<rparr> else f)"

definition drop_unique :: "field \<Rightarrow> field" where
  "drop_unique f =
     (if primary_key f \<or> unique f
      then f\<lparr>primary_key := False, unique_attr := False, db_index := True\<rparr> else f)"

definition copy_field ::
  "(string \<Rightarrow> field) \<Rightarrow> historical_records \<Rightarrow> field \<Rightarrow> exn + field" where
  "copy_field pk_of self f =
     (case convert_foreign_key pk_of self f of
        Inl e \<Rightarrow> Inl e
      | Inr g \<Rightarrow> Inr (drop_unique (strip_auto_now (replace_auto_field g))))"

text \<open>What the class dictionary of the historical model holds under a name.\<close>

datatype attr =
    ModuleAttr string
  | FieldAttr field
  | HistoricalObjectDescriptor string
  | PrimaryModel string
  | UnicodeMethod
  | MetaAttr "(string \<times> string list) list"

fun copy_fields_loop ::
  "(string \<Rightarrow> field) \<Rightarrow> historical_records \<Rightarrow> field list \<Rightarrow> (string, attr) dict
     \<Rightarrow> exn + (string, attr) dict" where
  "copy_fields_loop pk_of self [] acc = Inr acc"
| "copy_fields_loop pk_of self (f # fs) acc =
     (case copy_field pk_of self f of
        Inl e \<Rightarrow> Inl e
      | Inr g \<Rightarrow> copy_fields_loop pk_of self fs (AList.update (name g) (FieldAttr g) acc))"

definition copy_fields ::
  "(string \<Rightarrow> field) \<Rightarrow> historical_records \<Rightarrow> model \<Rightarrow> exn + (string, attr) dict" where
  "copy_fields pk_of self m =
     copy_fields_loop pk_of self (meta_fields m) [(''__module__'', ModuleAttr (model_module m))]"

section \<open>Synthesis of the historical model\<close>

text \<open>A field as the framework's constructor leaves it when no option is given.\<close>

definition new_field :: "field_class \<Rightarrow> field" where
  "new_field c =
     \<lparr>name = [], attname = [], cls = c, null_attr = False, blank = False,
      primary_key = False, unique_attr = False, db_index = False,
      auto_now = False, auto_now_add = False, max_length = None, choices = [],
      default_now = False, opts_object_name = [],
      rel = \<lparr>to = [], related_name = None\<rparr>\<rparr>"

definition get_extra_fields :: "model \<Rightarrow> (string, attr) dict" where
  "get_extra_fields m =
     [(''history_id'', FieldAttr ((new_field AutoField)\<lparr>primary_key := True\<rparr>)),
      (''history_date'',
         FieldAttr ((new_field DateTimeField)\<lparr>default_now := True, db_index := True\<rparr>)),
      (''history_type'',
         FieldAttr ((new_field CharField)
           \<lparr>max_length := Some 1,
            choices := [(''+'', ''Created''), (''~'', ''Changed''), (''-'', ''Deleted'')]\<rparr>)),
      (''history_object'', HistoricalObjectDescriptor (object_name m)),
      (''primary_model'', PrimaryModel (object_name m)),
      (''__unicode__'', UnicodeMethod)]"

definition get_meta_options :: "model \<Rightarrow> (string \<times> string list) list" where
  "get_meta_options m = [(''ordering'', [''-history_id'']), (''get_latest_by'', [''history_id''])]"

record history_model =
  hm_name :: string
  hm_attrs :: "(string, attr) dict"

definition create_history_model ::
  "(string \<Rightarrow> field) \<Rightarrow> historical_records \<Rightarrow> model \<Rightarrow> exn + history_model" where
  "create_history_model pk_of self m =
     (case copy_fields pk_of self m of
        Inl e \<Rightarrow> Inl e
      | Inr attrs \<Rightarrow>
          (let attrs1 = dict_update attrs (get_extra_fields m);
               attrs2 = dict_update attrs1 [(''Meta'', MetaAttr (get_meta_options m))]
           in Inr \<lparr>hm_name = ''Historical'' @ object_name m, hm_attrs = attrs2\<rparr>))"

section \<open>Capture of a snapshot\<close>

text \<open>
  The shadow table and the clock make up the store. A tracked instance gives the value of
  each attribute (\<open>getattr(instance, attname)\<close>), tells whether the object a foreign
  key refers to can still be fetched (\<open>getattr(instance, name)\<close> on a foreign key
  raises the target's \<open>DoesNotExist\<close> when it cannot), and holds the managers
  attached to its class, by attribute name. A manager is its \<open>create\<close> method,
  called with keyword arguments. A shadow row has the three columns that
  \<open>get_extra_fields\<close> adds and the values of the copied fields.
\<close>

record row =
  history_id :: pyval
  history_date :: pyval
  history_type :: pyval
  row_values :: "(string, pyval) dict"

record store =
  table :: "row list"
  clock :: int

type_synonym 'db manager = "(string, pyval) dict \<Rightarrow> 'db \<Rightarrow> exn option \<times> 'db"

record 'db tracked_instance =
  inst_fields :: "field list"
  attr_value :: "string \<Rightarrow> pyval"
  related_exists :: "string \<Rightarrow> bool"
  managers :: "(string, 'db manager) dict"

fun int_of :: "pyval \<Rightarrow> int" where
  "int_of (PInt n) = n"
| "int_of v = 0"

definition next_id :: "row list \<Rightarrow> int" where
  "next_id rows = 1 + fold max (map (\<lambda>r. int_of (history_id r)) rows) 0"

text \<open>
  Modelled from the spec: the history manager of \<^verbatim>\<open>history/manager.py\<close> is not among
  the source files. Its \<open>create\<close> inserts one new shadow row built from the keyword
  values. Each of the columns \<open>history_id\<close>, \<open>history_date\<close> and \<open>history_type\<close>
  takes the keyword of its name; without one (for the identifier, also with the value
  \<open>None\<close>) the shadow identifier is fresh and larger than the others, the date is the
  current timestamp (the default of \<open>history_date\<close>) and the marker is empty. The
  other keywords are the copied field values. The shadow identifier is the primary key of
  the shadow table: the store refuses a row that repeats an identifier with its
  \<open>IntegrityError\<close>.
\<close>

definition manager_create :: "store manager" where
  "manager_create kwargs db =
     (let r = \<lparr>history_id =
                  (case map_of kwargs ''history_id'' of
                     None \<Rightarrow> PInt (next_id (table db))
                   | Some v \<Rightarrow> if v = PNone then PInt (next_id (table db)) else v),
                history_date = dict_get kwargs ''history_date'' (PDateTime (clock db)),
                history_type = dict_get kwargs ''history_type'' (PStr []),
                row_values = AList.delete ''history_type'' kwargs\<rparr>
      in if history_id r \<in> set (map history_id (table db))
         then (Some (Exn IntegrityError (Msg ''PRIMARY KEY must be unique'')), db)
         else (None, db\<lparr>table := table db @ [r]\<rparr>))"

text \<open>
  The call \<open>manager.create(history_type=type, **attrs)\<close>: the marker and the copied
  values share one keyword namespace. When \<open>attrs\<close> has the key \<open>history_type\<close>
  itself, the call raises a \<open>TypeError\<close> for the repeated keyword and \<open>create\<close>
  does not run.
\<close>

definition call_create ::
  "'db manager \<Rightarrow> string \<Rightarrow> (string, pyval) dict \<Rightarrow> 'db \<Rightarrow> exn option \<times> 'db" where
  "call_create create marker attrs db =
     (if ''history_type'' \<in> set (map fst attrs)
      then (Some (Exn TypeError
                    (Msg ''create() got multiple values for keyword argument history_type'')), db)
      else create ((''history_type'', PStr marker) # attrs) db)"

definition getattr_related :: "'db tracked_instance \<Rightarrow> field \<Rightarrow> exn option" where
  "getattr_related inst f =
     (if related_exists inst (name f) then None
      else Some (Exn (DoesNotExist (to (rel f))) NoArg))"

text \<open>The check made on a field before its value is copied.\<close>

definition check_preserved :: "historical_records \<Rightarrow> 'db tracked_instance \<Rightarrow> field \<Rightarrow> exn option" where
  "check_preserved self inst f =
     (if isinstance f ForeignKey then
        (let conversion = dict_get (key_conversions self) (name f) CONVERT in
         if conversion = PRESERVE then
           (case getattr_related inst f of
              None \<Rightarrow> None
            | Some e \<Rightarrow>
                if isinstance_exn e (DoesNotExist (to (rel f)))
                then Some (Exn HistoricalIntegrityError (Cause e))
                else Some e)
         else None)
      else None)"

fun collect_attrs ::
  "historical_records \<Rightarrow> 'db tracked_instance \<Rightarrow> field list \<Rightarrow> (string, pyval) dict
     \<Rightarrow> exn + (string, pyval) dict" where
  "collect_attrs self inst [] attrs = Inr attrs"
| "collect_attrs self inst (f # fs) attrs =
     (case check_preserved self inst f of
        Some e \<Rightarrow> Inl e
      | None \<Rightarrow>
          collect_attrs self inst fs
            (AList.update (attname f) (attr_value inst (attname f)) attrs))"

definition create_historical_record ::
  "historical_records \<Rightarrow> 'db tracked_instance \<Rightarrow> string \<Rightarrow> 'db \<Rightarrow> exn option \<times> 'db" where
  "create_historical_record self inst marker db =
     (case map_of (managers inst) (manager_name self) of
        None \<Rightarrow> (Some (Exn AttributeError (Msg (manager_name self))), db)
      | Some create \<Rightarrow>
          (case collect_attrs self inst (inst_fields inst) [] of
             Inl e \<Rightarrow> (Some e, db)
           | Inr attrs \<Rightarrow> call_create create marker attrs db))"

text \<open>\<open>created and '+' or '~'\<close>: the second operand is a non-empty string.\<close>

definition post_save ::
  "historical_records \<Rightarrow> 'db tracked_instance \<Rightarrow> bool \<Rightarrow> 'db \<Rightarrow> exn option \<times> 'db" where
  "post_save self inst created db =
     create_historical_record self inst
       (if created \<and> ''+'' \<noteq> [] then ''+'' else ''~'') db"

definition post_delete ::
  "historical_records \<Rightarrow> 'db tracked_instance \<Rightarrow> 'db \<Rightarrow> exn option \<times> 'db" where
  "post_delete self inst db =
     (case create_historical_record self inst ''-'' db of
        (Some e, db') \<Rightarrow>
          if isinstance_exn e HistoricalIntegrityError then (None, db') else (Some e, db')
      | (None, db') \<Rightarrow> (None, db'))"

section \<open>Sequences of saves\<close>

text \<open>A \<open>for\<close> loop whose body may raise: the first exception ends it.\<close>

fun for_each :: "('a \<Rightarrow> 's \<Rightarrow> exn option \<times> 's) \<Rightarrow> 'a list \<Rightarrow> 's \<Rightarrow> exn option \<times> 's" where
  "for_each body [] s = (None, s)"
| "for_each body (x # xs) s =
     (case body x s of
        (Some e, s') \<Rightarrow> (Some e, s')
      | (None, s') \<Rightarrow> for_each body xs s')"

text \<open>
  The persistence layer notifies \<open>post_save\<close> with \<open>created = True\<close> after the save
  that creates an instance and with \<open>created = False\<close> after each later save. A save is
  the time it happens at and the instance as it is then.
\<close>

definition save_at ::
  "historical_records \<Rightarrow> bool \<Rightarrow> int \<times> store tracked_instance \<Rightarrow> store \<Rightarrow> exn option \<times> store" where
  "save_at self created ev db = post_save self (snd ev) created (db\<lparr>clock := fst ev\<rparr>)"

definition save_sequence ::
  "historical_records \<Rightarrow> int \<times> store tracked_instance \<Rightarrow> (int \<times> store tracked_instance) list
     \<Rightarrow> store \<Rightarrow> exn option \<times> store" where
  "save_sequence self first further db =
     (case save_at self True first db of
        (Some e, db') \<Rightarrow> (Some e, db')
      | (None, db') \<Rightarrow> for_each (save_at self False) further db')"

text \<open>
  The framework's rule for the value a date or time column stores on a save: the current
  time when the field sets itself, the value it is given otherwise.
\<close>

definition pre_save :: "field \<Rightarrow> bool \<Rightarrow> pyval \<Rightarrow> pyval \<Rightarrow> pyval" where
  "pre_save f add now v = (if auto_now f \<or> (auto_now_add f \<and> add) then now else v)"

text \<open>A foreign key under the PRESERVE policy, and the name a field's copy is stored under.\<close>

definition is_preserved :: "historical_records \<Rightarrow> field \<Rightarrow> bool" where
  "is_preserved self f =
     (isinstance f ForeignKey \<and> dict_get (key_conversions self) (name f) CONVERT = PRESERVE)"

definition is_converted :: "historical_records \<Rightarrow> field \<Rightarrow> bool" where
  "is_converted self f =
     (isinstance f ForeignKey \<and> dict_get (key_conversions self) (name f) CONVERT = CONVERT)"

definition shadow_name :: "historical_records \<Rightarrow> field \<Rightarrow> string" where
  "shadow_name self f = (if is_converted self f then get_attname f else name f)"

section \<open>Declaration, signals and finalization\<close>

text \<open>
  The process-wide state the module reads and writes: its two class-level dictionaries,
  the framework's registry (loaded models, errors, pending lazy relations, the three
  signals), the attributes set on tracked classes, the counters of the closures made by
  \<open>finalize\<close>, the installed replacement of \<open>init_name_map\<close> by options class, and
  the cached name maps. \<open>trace\<close> records the module's steps in the order they happen.
\<close>

datatype event =
    ConnectPostSave nat string
  | ConnectPostDelete nat string
  | CreateHistoryModel nat string
  | SetDescriptor nat string
  | MonkeyPatchNameMap nat string
  | MonkeyPatchHistoryProperties nat string

text \<open>
  An entry of a name map: the field or related object, the model, and the two flags.
  The related object made by \<open>update_item_name_map\<close> connects the tracked class to its
  historical model through a foreign key whose column is the tracked primary key's.
\<close>

datatype name_obj =
    FieldObj string
  | RelatedObject (parent_model: string) (related_model: string) (fk_column: string)

type_synonym name_entry = "name_obj \<times> string option \<times> bool \<times> bool"

type_synonym name_map = "(string, name_entry) dict"

record closure =
  cl_cell :: nat
  cl_self :: historical_records
  cl_sender :: model

type_synonym receiver = "(nat \<times> string) \<times> historical_records"

record registry =
  historical_record_classes :: "string list"
  patched_meta_classes :: "string list"
  app_errors :: "(string, string) dict"
  loaded :: "string list"
  target_pk :: "string \<Rightarrow> field"
  app_cache_ready :: bool
  class_prepared_receivers :: "receiver list"
  post_save_receivers :: "receiver list"
  post_delete_receivers :: "receiver list"
  pending_lookups :: "(string \<times> closure) list"
  counts :: "(nat, int) dict"
  descriptors :: "(string \<times> string, history_model) dict"
  class_properties :: "(string \<times> string, string) dict"
  init_name_map_impl :: "(string, historical_records \<times> model) dict"
  base_name_maps :: "string \<Rightarrow> name_map"
  name_map_cache :: "(string, name_map) dict"
  trace :: "event list"

text \<open>
  \<open>Signal.connect\<close> of the framework: a receiver is known by the identity of the
  bound method's object and of the sender, and is added once.
\<close>

definition connect :: "receiver list \<Rightarrow> historical_records \<Rightarrow> string \<Rightarrow> receiver list" where
  "connect receivers self sender =
     (if (decl_id self, sender) \<in> set (map fst receivers) then receivers
      else receivers @ [((decl_id self, sender), self)])"

definition contribute_to_class ::
  "historical_records \<Rightarrow> model \<Rightarrow> string \<Rightarrow> registry \<Rightarrow> historical_records \<times> registry" where
  "contribute_to_class self c nm s =
     (let s1 = (if object_name c \<in> set (historical_record_classes s)
                then s\<lparr>app_errors := AList.update (object_name c)
                         ''Models cannot have more than one HistoricalRecords field.''
                         (app_errors s)\<rparr>
                else s);
          s2 = s1\<lparr>historical_record_classes :=
                    List.insert (object_name c) (historical_record_classes s1)\<rparr>;
          self' = self\<lparr>manager_name := nm\<rparr>
      in (self',
          s2\<lparr>class_prepared_receivers :=
                connect (class_prepared_receivers s2) self' (object_name c)\<rparr>))"

definition monkey_patch_history_properties ::
  "historical_records \<Rightarrow> model \<Rightarrow> registry \<Rightarrow> registry" where
  "monkey_patch_history_properties self c s =
     s\<lparr>class_properties :=
         AList.update (object_name c, ''last_modified_date'') (manager_name self)
           (AList.update (object_name c, ''created_date'') (manager_name self)
              (class_properties s))\<rparr>"

definition monkey_patch_name_map :: "historical_records \<Rightarrow> model \<Rightarrow> registry \<Rightarrow> registry" where
  "monkey_patch_name_map self c s =
     (if meta_class c \<in> set (patched_meta_classes s) then s
      else s\<lparr>init_name_map_impl := AList.update (meta_class c) (self, c) (init_name_map_impl s),
             patched_meta_classes := List.insert (meta_class c) (patched_meta_classes s)\<rparr>)"

definition update_item_name_map ::
  "historical_records \<Rightarrow> name_map \<Rightarrow> model \<Rightarrow> registry \<Rightarrow> exn + name_map" where
  "update_item_name_map self mp c s =
     (case map_of (descriptors s) (object_name c, manager_name self) of
        None \<Rightarrow> Inl (Exn AttributeError (Msg (manager_name self)))
      | Some history_model \<Rightarrow>
          (let rel_obj = RelatedObject (object_name c) (hm_name history_model)
                           (get_attname (pk c))
           in Inr (AList.update (manager_name self) (rel_obj, None, False, False) mp)))"

text \<open>
  The framework's own \<open>init_name_map\<close> on the options of model \<open>m\<close>: it builds the
  map from the schema and keeps it as \<open>_name_map\<close> once the registry is ready.
\<close>

definition original_init_name_map :: "model \<Rightarrow> registry \<Rightarrow> name_map \<times> registry" where
  "original_init_name_map m s =
     (let cache = base_name_maps s (object_name m)
      in (cache,
          if app_cache_ready s
          then s\<lparr>name_map_cache := AList.update (object_name m) cache (name_map_cache s)\<rparr>
          else s))"

text \<open>The replacement installed by \<open>monkey_patch_name_map\<close>, closed over \<open>self\<close> and \<open>cls\<close>.\<close>

definition patched_init_name_map ::
  "historical_records \<times> model \<Rightarrow> model \<Rightarrow> registry \<Rightarrow> (exn + name_map) \<times> registry" where
  "patched_init_name_map cl m s =
     (case original_init_name_map m s of
        (original_map, s1) \<Rightarrow>
          (case update_item_name_map (fst cl) original_map (snd cl) s1 of
             Inl e \<Rightarrow> (Inl e, s1)
           | Inr updated_map \<Rightarrow>
               if \<not> dict_eq original_map updated_map \<and> app_cache_ready s1
               then (Inr updated_map,
                     s1\<lparr>name_map_cache :=
                          AList.update (object_name m) updated_map (name_map_cache s1)\<rparr>)
               else (Inr original_map, s1)))"

text \<open>A call of \<open>init_name_map\<close> on the options of \<open>m\<close>: whatever its options class holds.\<close>

definition init_name_map :: "model \<Rightarrow> registry \<Rightarrow> (exn + name_map) \<times> registry" where
  "init_name_map m s =
     (case map_of (init_name_map_impl s) (meta_class m) of
        None \<Rightarrow> (case original_init_name_map m s of (cache, s1) \<Rightarrow> (Inr cache, s1))
      | Some cl \<Rightarrow> patched_init_name_map cl m s)"

definition get_field_dependencies :: "model \<Rightarrow> field list" where
  "get_field_dependencies m = filter (\<lambda>f. isinstance f ForeignKey) (meta_fields m)"

text \<open>The inner function \<open>_finalize\<close> of \<open>finalize\<close>.\<close>

definition finalize_inner ::
  "historical_records \<Rightarrow> model \<Rightarrow> registry \<Rightarrow> exn option \<times> registry" where
  "finalize_inner self sender s =
     (case create_history_model (target_pk s) self sender of
        Inl e \<Rightarrow> (Some e, s)
      | Inr history_model \<Rightarrow>
          (let s1 = s\<lparr>trace := trace s @ [CreateHistoryModel (decl_id self) (object_name sender)]\<rparr>;
               s2 = s1\<lparr>descriptors :=
                         AList.update (object_name sender, manager_name self) history_model
                           (descriptors s1),
                       trace := trace s1 @ [SetDescriptor (decl_id self) (object_name sender)]\<rparr>;
               s3 = (monkey_patch_name_map self sender s2)
                      \<lparr>trace := trace s2 @ [MonkeyPatchNameMap (decl_id self) (object_name sender)]\<rparr>;
               s4 = (if add_history_properties self
                     then (monkey_patch_history_properties self sender s3)
                            \<lparr>trace := trace s3 @
                               [MonkeyPatchHistoryProperties (decl_id self) (object_name sender)]\<rparr>
                     else s3)
           in (None, s4)))"

text \<open>The inner function \<open>dependency_resolved\<close>: it counts down and finalizes at zero.\<close>

definition dependency_resolved :: "closure \<Rightarrow> registry \<Rightarrow> exn option \<times> registry" where
  "dependency_resolved cl s =
     (let s1 = s\<lparr>counts := AList.update (cl_cell cl) (dict_get (counts s) (cl_cell cl) 0 - 1)
                              (counts s)\<rparr>
      in if dict_get (counts s1) (cl_cell cl) 0 = 0
         then finalize_inner (cl_self cl) (cl_sender cl) s1
         else (None, s1))"

text \<open>
  \<open>add_lazy_relation\<close> of the framework: the operation runs at once when the target is
  loaded, and is kept until the target's class is prepared otherwise.
\<close>

definition add_lazy_relation :: "closure \<Rightarrow> string \<Rightarrow> registry \<Rightarrow> exn option \<times> registry" where
  "add_lazy_relation cl target s =
     (if target \<in> set (loaded s) then dependency_resolved cl s
      else (None, s\<lparr>pending_lookups := pending_lookups s @ [(target, cl)]\<rparr>))"

definition do_pending_lookups :: "string \<Rightarrow> registry \<Rightarrow> exn option \<times> registry" where
  "do_pending_lookups sender s =
     (let mine = filter (\<lambda>p. fst p = sender) (pending_lookups s);
          s1 = s\<lparr>pending_lookups := filter (\<lambda>p. fst p \<noteq> sender) (pending_lookups s)\<rparr>
      in for_each (\<lambda>p. dependency_resolved (snd p)) mine s1)"

definition finalize :: "historical_records \<Rightarrow> model \<Rightarrow> registry \<Rightarrow> exn option \<times> registry" where
  "finalize self sender s =
     (let s1 = s\<lparr>post_save_receivers := connect (post_save_receivers s) self (object_name sender),
                 trace := trace s @ [ConnectPostSave (decl_id self) (object_name sender)]\<rparr>;
          s2 = s1\<lparr>post_delete_receivers :=
                    connect (post_delete_receivers s1) self (object_name sender),
                  trace := trace s1 @ [ConnectPostDelete (decl_id self) (object_name sender)]\<rparr>;
          deps = get_field_dependencies sender
      in if deps \<noteq> [] then
           (let cell = length (counts s2);
                s3 = s2\<lparr>counts := AList.update cell (int (length deps)) (counts s2)\<rparr>;
                cl = \<lparr>cl_cell = cell, cl_self = self, cl_sender = sender\<rparr>
            in for_each (\<lambda>dep. add_lazy_relation cl (to (rel dep))) deps s3)
         else finalize_inner self sender s2)"

text \<open>
  The framework prepares a class once its attributes are contributed: it sends
  \<open>class_prepared\<close>, received first by its own \<open>do_pending_lookups\<close> and then by the
  receivers connected for this sender, and registers the class afterwards.
\<close>

definition class_prepared_send :: "model \<Rightarrow> registry \<Rightarrow> exn option \<times> registry" where
  "class_prepared_send c s =
     (case do_pending_lookups (object_name c) s of
        (Some e, s') \<Rightarrow> (Some e, s')
      | (None, s') \<Rightarrow>
          (case for_each (\<lambda>r. finalize (snd r) c)
                  (filter (\<lambda>r. snd (fst r) = object_name c) (class_prepared_receivers s')) s' of
             (Some e, s'') \<Rightarrow> (Some e, s'')
           | (None, s'') \<Rightarrow> (None, s''\<lparr>loaded := object_name c # loaded s''\<rparr>)))"

text \<open>A class body: the tracking declarations among its attributes, each under its name.\<close>

fun contribute_all ::
  "(historical_records \<times> string) list \<Rightarrow> model \<Rightarrow> registry \<Rightarrow> registry" where
  "contribute_all [] c s = s"
| "contribute_all ((self, nm) # ds) c s = contribute_all ds c (snd (contribute_to_class self c nm s))"

definition declare_model ::
  "(historical_records \<times> string) list \<Rightarrow> model \<Rightarrow> registry \<Rightarrow> exn option \<times> registry" where
  "declare_model ds c s = class_prepared_send c (contribute_all ds c s)"

section \<open>Notions of the statements\<close>

text \<open>The attribute values \<open>create_historical_record\<close> reads off an instance.\<close>

definition snapshot ::
  "'db tracked_instance \<Rightarrow> field list \<Rightarrow> (string, pyval) dict \<Rightarrow> (string, pyval) dict" where
  "snapshot inst fs acc =
     fold (\<lambda>f. AList.update (attname f) (attr_value inst (attname f))) fs acc"

text \<open>
  A capture that can complete: the manager is attached, no preserved target is gone, and
  no tracked field is stored under the name of the shadow identifier or of the marker.
\<close>

definition capture_ok :: "historical_records \<Rightarrow> store tracked_instance \<Rightarrow> bool" where
  "capture_ok self inst =
     (map_of (managers inst) (manager_name self) = Some manager_create \<and>
      (\<forall>f \<in> set (inst_fields inst). is_preserved self f \<longrightarrow> related_exists inst (name f)) \<and>
      (\<forall>f \<in> set (inst_fields inst). attname f \<noteq> ''history_id'' \<and> attname f \<noteq> ''history_type''))"

text \<open>
  The row a capture that can complete adds: a fresh identifier, the marker, the copied
  values, and for the date the current time unless a tracked field is stored under
  \<open>history_date\<close>.
\<close>

definition shadow_row :: "store tracked_instance \<Rightarrow> string \<Rightarrow> store \<Rightarrow> row" where
  "shadow_row inst marker db =
     \<lparr>history_id = PInt (next_id (table db)),
      history_date =
        dict_get (snapshot inst (inst_fields inst) []) ''history_date'' (PDateTime (clock db)),
      history_type = PStr marker,
      row_values = snapshot inst (inst_fields inst) []\<rparr>"

text \<open>The policy a declaration gives a field, and whether it is one of the two policies.\<close>

definition conversion_of :: "historical_records \<Rightarrow> field \<Rightarrow> int" where
  "conversion_of self f = dict_get (key_conversions self) (name f) CONVERT"

definition invalid_conversion :: "historical_records \<Rightarrow> field \<Rightarrow> bool" where
  "invalid_conversion self f =
     (isinstance f ForeignKey \<and> conversion_of self f \<noteq> CONVERT \<and> conversion_of self f \<noteq> PRESERVE)"






text \<open>The query planner rebuilding the name map of a type \<open>n\<close> times.\<close>

fun rebuilds :: "nat \<Rightarrow> model \<Rightarrow> registry \<Rightarrow> registry" where
  "rebuilds 0 m s = s"
| "rebuilds (Suc n) m s = rebuilds n m (snd (init_name_map m s))"

text \<open>The entry \<open>update_item_name_map\<close> stores for a type and its historical model.\<close>

definition history_entry :: "model \<Rightarrow> history_model \<Rightarrow> name_entry" where
  "history_entry c hm =
     (RelatedObject (object_name c) (hm_name hm) (get_attname (pk c)), None, False, False)"

text \<open>
  The name map a rebuild returns for a type with base map \<open>base\<close> once the registry is
  ready: the updated map, or the base map itself when it already equals the updated one.
\<close>

definition rebuilt_map ::
  "historical_records \<Rightarrow> model \<Rightarrow> history_model \<Rightarrow> name_map \<Rightarrow> name_map" where
  "rebuilt_map self c hm base =
     (if dict_eq base (AList.update (manager_name self) (history_entry c hm) base) then base
      else AList.update (manager_name self) (history_entry c hm) base)"

section \<open>Types of the test application\<close>

text \<open>
  The tests track a model with a preserved foreign key \<open>fk\<close> to
  \<open>NonversionedModel\<close>, whose reverse name is \<open>rel_p\<close>, and a manager \<open>history\<close>.
\<close>

definition ex_id :: field where
  "ex_id = (new_field AutoField)\<lparr>name := ''id'', attname := ''id'', primary_key := True\<rparr>"

definition ex_characters :: field where
  "ex_characters =
     (new_field CharField)\<lparr>name := ''characters'', attname := ''characters'',
        max_length := Some 255\<rparr>"

definition ex_fk :: field where
  "ex_fk =
     (new_field ForeignKey)\<lparr>name := ''fk'', attname := ''fk_id'',
        opts_object_name := ''PreserveFkToNonversionedModel'',
        rel := \<lparr>to = ''NonversionedModel'', related_name = Some ''rel_p''\<rparr>\<rparr>"

definition ex_created :: field where
  "ex_created =
     (new_field DateTimeField)\<lparr>name := ''auto_now_add_datetime'',
        attname := ''auto_now_add_datetime'', auto_now_add := True\<rparr>"

definition ex_model :: model where
  "ex_model =
     \<lparr>object_name = ''PreserveFkToNonversionedModel'', model_module = ''test_app.models'',
      meta_fields = [ex_id, ex_characters, ex_fk, ex_created], pk = ex_id,
      meta_class = ''Options''\<rparr>"

definition ex_history :: historical_records where
  "ex_history =
     (init_historical_records 0 (Some [(''fk'', PRESERVE)]) False)\<lparr>manager_name := ''history''\<rparr>"

definition ex_values :: "string \<Rightarrow> string \<Rightarrow> pyval" where
  "ex_values chars k =
     (if k = ''id'' then PInt 1
      else if k = ''characters'' then PStr chars
      else if k = ''fk_id'' then PInt 7
      else if k = ''auto_now_add_datetime'' then PDateTime 100
      else PNone)"

definition ex_instance :: "string \<Rightarrow> bool \<Rightarrow> store manager \<Rightarrow> store tracked_instance" where
  "ex_instance chars target_there mgr =
     \<lparr>inst_fields = meta_fields ex_model, attr_value = ex_values chars,
      related_exists = (\<lambda>_. target_there), managers = [(''history'', mgr)]\<rparr>"

definition ex_store :: store where
  "ex_store = \<lparr>table = [], clock = 100\<rparr>"






text \<open>A manager whose store refuses the insert with an ordinary integrity error.\<close>

definition refusing_manager :: "store manager" where
  "refusing_manager kwargs db = (Some (Exn IntegrityError (Msg ''constraint failed'')), db)"


definition ex_pk_of :: "string \<Rightarrow> field" where
  "ex_pk_of target = ex_id"

text \<open>The process state before any model is declared.\<close>

definition ex_registry :: registry where
  "ex_registry =
     \<lparr>historical_record_classes = [], patched_meta_classes = [], app_errors = [],
      loaded = [], target_pk = ex_pk_of, app_cache_ready = False,
      class_prepared_receivers = [], post_save_receivers = [], post_delete_receivers = [],
      pending_lookups = [], counts = [], descriptors = [], class_properties = [],
      init_name_map_impl = [], base_name_maps = (\<lambda>m. []), name_map_cache = [],
      trace = []\<rparr>"

text \<open>
  Two more types of the test application, without foreign keys, and declarations for them:
  two for \<open>VersionedModel\<close>, under the names \<open>history\<close> and \<open>audit\<close>, and one
  for \<open>DateFieldTestModel\<close>, under the name \<open>log\<close>.
\<close>

definition ex_integer :: field where
  "ex_integer = (new_field IntegerField)\<lparr>name := ''integer'', attname := ''integer''\<rparr>"

definition ex_versioned :: model where
  "ex_versioned =
     \<lparr>object_name = ''VersionedModel'', model_module = ''test_app.models'',
      meta_fields = [ex_id, ex_integer], pk = ex_id, meta_class = ''Options''\<rparr>"

definition ex_dated :: model where
  "ex_dated =
     \<lparr>object_name = ''DateFieldTestModel'', model_module = ''test_app.models'',
      meta_fields = [ex_id, ex_integer, ex_created], pk = ex_id, meta_class = ''Options''\<rparr>"

definition ex_first_decl :: historical_records where
  "ex_first_decl = init_historical_records 0 None False"

definition ex_second_decl :: historical_records where
  "ex_second_decl = init_historical_records 1 None False"

definition ex_third_decl :: historical_records where
  "ex_third_decl = init_historical_records 2 None False"

text \<open>
  A registry that is ready, in which \<open>VersionedModel\<close> already has a relation named
  \<open>history\<close>: the reverse relation of a model \<open>History\<close> with a foreign key to it.
\<close>

definition ex_reverse_entry :: name_entry where
  "ex_reverse_entry = (RelatedObject ''VersionedModel'' ''History'' ''versioned_id'', None, False, False)"

definition ex_ready_registry :: registry where
  "ex_ready_registry =
     ex_registry\<lparr>app_cache_ready := True,
       base_name_maps := (\<lambda>m. if m = ''VersionedModel''
                                then [(''id'', (FieldObj ''id'', None, True, False)),
                                      (''history'', ex_reverse_entry)]
                                else [(''id'', (FieldObj ''id'', None, True, False))])\<rparr>"

text \<open>
  The ready registry after \<open>VersionedModel\<close> has been declared with its declaration
  \<open>history\<close>, and after \<open>DateFieldTestModel\<close> has then been declared with its
  declaration \<open>log\<close>.
\<close>

definition ex_after_versioned :: registry where
  "ex_after_versioned =
     snd (declare_model [(ex_first_decl, ''history'')] ex_versioned ex_ready_registry)"

definition ex_after_dated :: registry where
  "ex_after_dated = snd (declare_model [(ex_third_decl, ''log'')] ex_dated ex_after_versioned)"

text \<open>A type with a foreign key to itself, tracked with the defaults.\<close>

definition ex_parent :: field where
  "ex_parent =
     (new_field ForeignKey)\<lparr>name := ''parent'', attname := ''parent_id'',
        opts_object_name := ''Node'', rel := \<lparr>to = ''Node'', related_name = None\<rparr>\<rparr>"

definition ex_node :: model where
  "ex_node =
     \<lparr>object_name = ''Node'', model_module = ''test_app.models'',
      meta_fields = [ex_id, ex_parent], pk = ex_id, meta_class = ''Options''\<rparr>"

section \<open>Properties of the capture\<close>

lemma issubclass_refl: "issubclass c c"
  by (simp add: issubclass_def)

lemma check_preserved_None:
  "check_preserved self inst f = None \<longleftrightarrow> (is_preserved self f \<longrightarrow> related_exists inst (name f))"
  by (simp add: check_preserved_def is_preserved_def getattr_related_def Let_def isinstance_exn_def issubclass_refl)

lemma check_preserved_Some:
  "is_preserved self f \<Longrightarrow> \<not> related_exists inst (name f) \<Longrightarrow>
   check_preserved self inst f =
     Some (Exn HistoricalIntegrityError (Cause (Exn (DoesNotExist (to (rel f))) NoArg)))"
  by (simp add: check_preserved_def is_preserved_def getattr_related_def Let_def isinstance_exn_def issubclass_refl)

lemma collect_attrs_ok:
  "(\<forall>f \<in> set fs. is_preserved self f \<longrightarrow> related_exists inst (name f)) \<Longrightarrow>
   collect_attrs self inst fs acc = Inr (snapshot inst fs acc)"
proof (induction fs arbitrary: acc)
  case Nil
  then show ?case by (simp add: snapshot_def)
next
  case (Cons f fs)
  then have "check_preserved self inst f = None"
    by (simp add: check_preserved_None)
  with Cons show ?case by (simp add: snapshot_def)
qed

lemma collect_attrs_fails:
  "\<exists>f \<in> set fs. is_preserved self f \<and> \<not> related_exists inst (name f) \<Longrightarrow>
   \<exists>e. collect_attrs self inst fs acc = Inl e \<and> isinstance_exn e HistoricalIntegrityError"
proof (induction fs arbitrary: acc)
  case Nil
  then show ?case by simp
next
  case (Cons f fs)
  show ?case
  proof (cases "check_preserved self inst f")
    case None
    then have "is_preserved self f \<longrightarrow> related_exists inst (name f)"
      by (simp add: check_preserved_None)
    with Cons.prems have "\<exists>f \<in> set fs. is_preserved self f \<and> \<not> related_exists inst (name f)"
      by auto
    from Cons.IH [OF this] None show ?thesis by simp
  next
    case (Some e)
    then have "\<not> (is_preserved self f \<longrightarrow> related_exists inst (name f))"
      using check_preserved_None [of self inst f] by simp
    then have "check_preserved self inst f =
       Some (Exn HistoricalIntegrityError (Cause (Exn (DoesNotExist (to (rel f))) NoArg)))"
      by (simp add: check_preserved_Some)
    then show ?thesis by (simp add: isinstance_exn_def issubclass_refl)
  qed
qed

lemma map_of_snapshot:
  "map_of (snapshot inst fs acc) k =
     (if k \<in> attname ` set fs then Some (attr_value inst k) else map_of acc k)"
  by (induction fs arbitrary: acc) (auto simp: snapshot_def update_conv')

lemma keys_snapshot:
  "fst ` set (snapshot inst fs acc) = fst ` set acc \<union> attname ` set fs"
  by (induction fs arbitrary: acc) (auto simp: snapshot_def dom_update)

text \<open>A fresh identifier repeats none of the table.\<close>

lemma fresh_identifier: "PInt (next_id rows) \<notin> set (map history_id rows)"
proof
  assume "PInt (next_id rows) \<in> set (map history_id rows)"
  then obtain r where r: "r \<in> set rows" "history_id r = PInt (next_id rows)" by auto
  then have "int_of (history_id r) = next_id rows" by simp
  with r(1) have "next_id rows \<in> set (map (\<lambda>r. int_of (history_id r)) rows)" by force
  then have "next_id rows \<le> Max (set (0 # map (\<lambda>r. int_of (history_id r)) rows))"
    by (intro Max_ge) simp_all
  then have "next_id rows \<le> fold max (map (\<lambda>r. int_of (history_id r)) rows) 0"
    by (simp only: Max.set_eq_fold)
  then show False by (simp add: next_id_def)
qed

text \<open>
  The keyword call and the manager on a snapshot with no value stored under the name of
  the marker or of the shadow identifier.
\<close>

lemma call_create_snapshot:
  assumes "''history_type'' \<notin> attname ` set fs"
  shows "call_create create marker (snapshot inst fs []) db =
           create ((''history_type'', PStr marker) # snapshot inst fs []) db"
proof -
  have "fst ` set (snapshot inst fs []) = attname ` set fs"
    by (simp add: keys_snapshot)
  with assms show ?thesis by (simp add: call_create_def)
qed

lemma manager_create_snapshot:
  assumes "''history_id'' \<notin> attname ` set fs"
      and "''history_type'' \<notin> attname ` set fs"
  shows "manager_create ((''history_type'', PStr marker) # snapshot inst fs []) db =
    (None, db\<lparr>table := table db @
       [\<lparr>history_id = PInt (next_id (table db)),
         history_date = dict_get (snapshot inst fs []) ''history_date'' (PDateTime (clock db)),
         history_type = PStr marker, row_values = snapshot inst fs []\<rparr>]\<rparr>)"
proof -
  from assms(1) have i: "map_of (snapshot inst fs []) ''history_id'' = None"
    by (simp add: map_of_snapshot)
  have "fst ` set (snapshot inst fs []) = attname ` set fs"
    by (simp add: keys_snapshot)
  with assms(2) have d: "AList.delete ''history_type'' (snapshot inst fs []) = snapshot inst fs []"
    by (simp add: delete_id)
  have f: "PInt (next_id (table db)) \<notin> history_id ` set (table db)"
    using fresh_identifier [of "table db"] by simp
  show ?thesis
    by (simp add: manager_create_def dict_get_def i d f)
qed

lemma create_historical_record_ok:
  assumes "map_of (managers inst) (manager_name self) = Some create"
      and "\<forall>f \<in> set (inst_fields inst). is_preserved self f \<longrightarrow> related_exists inst (name f)"
  shows "create_historical_record self inst marker db =
           call_create create marker (snapshot inst (inst_fields inst) []) db"
  using assms by (simp add: create_historical_record_def collect_attrs_ok)

lemma create_historical_record_fails:
  assumes "map_of (managers inst) (manager_name self) = Some create"
      and "\<exists>f \<in> set (inst_fields inst). is_preserved self f \<and> \<not> related_exists inst (name f)"
  shows "\<exists>e. create_historical_record self inst marker db = (Some e, db) \<and>
             isinstance_exn e HistoricalIntegrityError"
proof -
  from collect_attrs_fails [OF assms(2)] obtain e where
    "collect_attrs self inst (inst_fields inst) [] = Inl e"
    "isinstance_exn e HistoricalIntegrityError" by blast
  with assms(1) show ?thesis by (simp add: create_historical_record_def)
qed

lemma create_historical_record_row:
  assumes "capture_ok self inst"
  shows "create_historical_record self inst marker db =
           (None, db\<lparr>table := table db @ [shadow_row inst marker db]\<rparr>)"
proof -
  from assms have m: "map_of (managers inst) (manager_name self) = Some manager_create"
    and p: "\<forall>f \<in> set (inst_fields inst). is_preserved self f \<longrightarrow> related_exists inst (name f)"
    and n: "''history_id'' \<notin> attname ` set (inst_fields inst)"
           "''history_type'' \<notin> attname ` set (inst_fields inst)"
    by (auto simp: capture_ok_def)
  show ?thesis
    by (simp only: create_historical_record_ok [OF m p] call_create_snapshot [OF n(2)]
          manager_create_snapshot [OF n] shadow_row_def)
qed

lemma shadow_row_simps [simp]:
  "history_type (shadow_row inst marker db) = PStr marker"
  "row_values (shadow_row inst marker db) = snapshot inst (inst_fields inst) []"
  by (simp_all add: shadow_row_def)



text \<open>
  Claim C2. When the target of a PRESERVEd foreign key is gone, the post-delete handler
  returns normally and leaves the store untouched, whereas the post-save handler, for a
  creation as for an update, raises the \<open>HistoricalIntegrityError\<close> to its caller.
  This holds for an instance with a manager attached under the declared name, whatever
  that manager does.
\<close>

theorem integrity_error_swallowed_only_by_post_delete:
  assumes "map_of (managers inst) (manager_name self) = Some create"
      and "\<exists>f \<in> set (inst_fields inst). is_preserved self f \<and> \<not> related_exists inst (name f)"
  shows "post_delete self inst db = (None, db) \<and>
         (\<exists>e. post_save self inst True db = (Some e, db) \<and> isinstance_exn e HistoricalIntegrityError) \<and>
         (\<exists>e. post_save self inst False db = (Some e, db) \<and> isinstance_exn e HistoricalIntegrityError)"
proof -
  have fails: "\<exists>e. create_historical_record self inst marker db = (Some e, db) \<and>
             isinstance_exn e HistoricalIntegrityError" for marker
    by (rule create_historical_record_fails [OF assms])
  from fails [of "''-''"] have "post_delete self inst db = (None, db)"
    by (auto simp: post_delete_def)
  moreover from fails [of "''+''"]
  have "\<exists>e. post_save self inst True db = (Some e, db) \<and> isinstance_exn e HistoricalIntegrityError"
    by (simp add: post_save_def)
  moreover from fails [of "''~''"]
  have "\<exists>e. post_save self inst False db = (Some e, db) \<and> isinstance_exn e HistoricalIntegrityError"
    by (simp add: post_save_def)
  ultimately show ?thesis by simp
qed

text \<open>
  Claim C10. \<open>HistoricalIntegrityError\<close> is a subclass of the store's
  \<open>IntegrityError\<close> and not the other way round. When the capture made by the
  post-delete handler raises an exception, the handler suppresses it if it is an instance
  of \<open>HistoricalIntegrityError\<close> and raises it unchanged otherwise; in particular an
  exception of another class raised by the call of the manager's insert reaches the
  caller.
\<close>

theorem post_delete_suppresses_exactly_historical_integrity_error:
  "issubclass HistoricalIntegrityError IntegrityError \<and>
   \<not> issubclass IntegrityError HistoricalIntegrityError \<and>
   (create_historical_record self inst ''-'' db = (Some e, db') \<longrightarrow>
      post_delete self inst db =
        (if isinstance_exn e HistoricalIntegrityError then (None, db') else (Some e, db'))) \<and>
   (map_of (managers inst) (manager_name self) = Some create \<and>
    (\<forall>f \<in> set (inst_fields inst). is_preserved self f \<longrightarrow> related_exists inst (name f)) \<and>
    call_create create ''-'' (snapshot inst (inst_fields inst) []) db = (Some e, db') \<and>
    \<not> isinstance_exn e HistoricalIntegrityError \<longrightarrow>
      post_delete self inst db = (Some e, db'))"
proof (intro conjI impI)
  show "issubclass HistoricalIntegrityError IntegrityError"
    by (simp add: issubclass_def)
  show "\<not> issubclass IntegrityError HistoricalIntegrityError"
    by (simp add: issubclass_def)
next
  assume "create_historical_record self inst ''-'' db = (Some e, db')"
  then show "post_delete self inst db =
        (if isinstance_exn e HistoricalIntegrityError then (None, db') else (Some e, db'))"
    by (simp add: post_delete_def)
next
  assume a: "map_of (managers inst) (manager_name self) = Some create \<and>
    (\<forall>f \<in> set (inst_fields inst). is_preserved self f \<longrightarrow> related_exists inst (name f)) \<and>
    call_create create ''-'' (snapshot inst (inst_fields inst) []) db = (Some e, db') \<and>
    \<not> isinstance_exn e HistoricalIntegrityError"
  then have "create_historical_record self inst ''-'' db = (Some e, db')"
    using create_historical_record_ok [of inst self create "''-''" db] by simp
  with a show "post_delete self inst db = (Some e, db')"
    by (simp add: post_delete_def)
qed

lemmas ex_defs = ex_instance_def ex_model_def ex_history_def ex_store_def ex_id_def
  ex_characters_def ex_fk_def ex_created_def new_field_def init_historical_records_def
  is_preserved_def isinstance_def dict_get_def PRESERVE_def CONVERT_def


lemma ex_no_marker_name:
  "''history_type'' \<notin> attname ` set (inst_fields (ex_instance chars there mgr))"
  by (simp add: ex_defs)



text \<open>The theorem at the tracked instance whose target has been deleted.\<close>

theorem integrity_error_swallowed_only_by_post_delete_witness:
  "post_delete ex_history (ex_instance ''v0'' False manager_create) ex_store = (None, ex_store) \<and>
   (\<exists>e. post_save ex_history (ex_instance ''v0'' False manager_create) True ex_store = (Some e, ex_store)
        \<and> isinstance_exn e HistoricalIntegrityError) \<and>
   (\<exists>e. post_save ex_history (ex_instance ''v0'' False manager_create) False ex_store = (Some e, ex_store)
        \<and> isinstance_exn e HistoricalIntegrityError)"
proof -
  have m: "map_of (managers (ex_instance ''v0'' False manager_create)) (manager_name ex_history)
             = Some manager_create"
    by (simp add: ex_defs)
  have b: "\<exists>f \<in> set (inst_fields (ex_instance ''v0'' False manager_create)).
             is_preserved ex_history f \<and> \<not> related_exists (ex_instance ''v0'' False manager_create) (name f)"
    by (simp add: ex_defs)
  show ?thesis
    by (rule integrity_error_swallowed_only_by_post_delete [OF m b])
qed

text \<open>
  The theorem at a manager whose insert raises an ordinary \<open>IntegrityError\<close>: the
  error reaches the caller of the post-delete handler; the error raised for a vanished
  target does not.
\<close>

theorem post_delete_suppresses_exactly_historical_integrity_error_witness:
  "post_delete ex_history (ex_instance ''v0'' True refusing_manager) ex_store
     = (Some (Exn IntegrityError (Msg ''constraint failed'')), ex_store) \<and>
   post_delete ex_history (ex_instance ''v0'' False refusing_manager) ex_store = (None, ex_store)"
proof -
  let ?i = "ex_instance ''v0'' True refusing_manager"
  let ?e = "Exn IntegrityError (Msg ''constraint failed'')"
  have m: "map_of (managers ?i) (manager_name ex_history) = Some refusing_manager"
    by (simp add: ex_defs)
  have a: "\<forall>f \<in> set (inst_fields ?i). is_preserved ex_history f \<longrightarrow> related_exists ?i (name f)"
    by (simp add: ex_instance_def)
  have r: "call_create refusing_manager ''-'' (snapshot ?i (inst_fields ?i) []) ex_store =
             (Some ?e, ex_store)"
    by (simp add: call_create_snapshot [OF ex_no_marker_name] refusing_manager_def)
  have n: "\<not> isinstance_exn ?e HistoricalIntegrityError"
    by (simp add: isinstance_exn_def issubclass_def)
  have first: "post_delete ex_history ?i ex_store = (Some ?e, ex_store)"
    using post_delete_suppresses_exactly_historical_integrity_error
            [of ex_history ?i ex_store ?e ex_store refusing_manager] m a r n
    by blast
  let ?j = "ex_instance ''v0'' False refusing_manager"
  let ?h = "Exn HistoricalIntegrityError (Cause (Exn (DoesNotExist ''NonversionedModel'') NoArg))"
  have c: "create_historical_record ex_history ?j ''-'' ex_store = (Some ?h, ex_store)"
    by (simp add: create_historical_record_def ex_defs check_preserved_def getattr_related_def
          isinstance_exn_def issubclass_def)
  have h: "isinstance_exn ?h HistoricalIntegrityError"
    by (simp add: isinstance_exn_def issubclass_def)
  have "post_delete ex_history ?j ex_store = (None, ex_store)"
    using post_delete_suppresses_exactly_historical_integrity_error
            [of ex_history ?j ex_store ?h ex_store refusing_manager] c h
    by simp
  with first show ?thesis by simp
qed

lemma post_save_ok:
  assumes "capture_ok self inst"
  shows "post_save self inst created db =
    (None, db\<lparr>table := table db @ [shadow_row inst (if created then ''+'' else ''~'') db]\<rparr>)"
  by (simp add: post_save_def create_historical_record_row [OF assms])


lemma further_saves_rows:
  "\<forall>ev \<in> set evs. capture_ok self (snd ev) \<Longrightarrow>
   \<exists>db' rows. for_each (save_at self False) evs db = (None, db') \<and>
     table db' = table db @ rows \<and>
     map history_type rows = replicate (length evs) (PStr ''~'') \<and>
     map row_values rows = map (\<lambda>ev. snapshot (snd ev) (inst_fields (snd ev)) []) evs"
proof (induction evs arbitrary: db)
  case Nil
  then show ?case by simp
next
  case (Cons ev evs)
  let ?r = "shadow_row (snd ev) ''~'' (db\<lparr>clock := fst ev\<rparr>)"
  let ?db1 = "db\<lparr>clock := fst ev, table := table db @ [?r]\<rparr>"
  from Cons.prems have ok: "capture_ok self (snd ev)" by simp
  have step: "save_at self False ev db = (None, ?db1)"
    by (simp add: save_at_def post_save_ok [OF ok])
  from Cons.prems have "\<forall>ev \<in> set evs. capture_ok self (snd ev)" by simp
  from Cons.IH [OF this, of ?db1] obtain db' rows where
    r: "for_each (save_at self False) evs ?db1 = (None, db')"
       "table db' = table ?db1 @ rows"
       "map history_type rows = replicate (length evs) (PStr ''~'')"
       "map row_values rows = map (\<lambda>ev. snapshot (snd ev) (inst_fields (snd ev)) []) evs"
    by auto
  have "for_each (save_at self False) (ev # evs) db = (None, db')"
    using step r(1) by simp
  moreover have "table db' = table db @ (?r # rows)" using r(2) by simp
  moreover have "map history_type (?r # rows) = replicate (length (ev # evs)) (PStr ''~'')"
    using r(3) by simp
  moreover have "map row_values (?r # rows) =
      map (\<lambda>ev. snapshot (snd ev) (inst_fields (snd ev)) []) (ev # evs)"
    using r(4) by simp
  ultimately show ?case
    by (intro exI [of _ db'] exI [of _ "?r # rows"] conjI)
qed

lemma save_sequence_rows:
  assumes "\<forall>ev \<in> set (first # further). capture_ok self (snd ev)"
  shows "\<exists>db' rows. save_sequence self first further db = (None, db') \<and>
     table db' = table db @ rows \<and>
     map history_type rows = PStr ''+'' # replicate (length further) (PStr ''~'') \<and>
     map row_values rows =
       map (\<lambda>ev. snapshot (snd ev) (inst_fields (snd ev)) []) (first # further)"
proof -
  let ?r = "shadow_row (snd first) ''+'' (db\<lparr>clock := fst first\<rparr>)"
  let ?db1 = "db\<lparr>clock := fst first, table := table db @ [?r]\<rparr>"
  from assms have ok: "capture_ok self (snd first)" by simp
  have step: "save_at self True first db = (None, ?db1)"
    by (simp add: save_at_def post_save_ok [OF ok])
  from assms have "\<forall>ev \<in> set further. capture_ok self (snd ev)" by simp
  from further_saves_rows [OF this, of ?db1] obtain db' rows where
    r: "for_each (save_at self False) further ?db1 = (None, db')"
       "table db' = table ?db1 @ rows"
       "map history_type rows = replicate (length further) (PStr ''~'')"
       "map row_values rows = map (\<lambda>ev. snapshot (snd ev) (inst_fields (snd ev)) []) further"
    by auto
  have "save_sequence self first further db = (None, db')"
    using step r(1) by (simp add: save_sequence_def)
  moreover have "table db' = table db @ (?r # rows)" using r(2) by simp
  moreover have "map history_type (?r # rows) = PStr ''+'' # replicate (length further) (PStr ''~'')"
    using r(3) by simp
  moreover have "map row_values (?r # rows) =
      map (\<lambda>ev. snapshot (snd ev) (inst_fields (snd ev)) []) (first # further)"
    using r(4) by simp
  ultimately show ?thesis
    by (intro exI [of _ db'] exI [of _ "?r # rows"] conjI)
qed



lemma ex_no_key_name:
  "\<forall>f \<in> set (inst_fields (ex_instance chars there mgr)).
     attname f \<noteq> ''history_id'' \<and> attname f \<noteq> ''history_type''"
  by (simp add: ex_defs)

lemma ex_capture_ok: "capture_ok ex_history (ex_instance chars True manager_create)"
  using ex_no_key_name [of chars True manager_create]
  by (simp add: capture_ok_def ex_instance_def ex_history_def)



section \<open>Properties of the field transformation\<close>

lemma foreign_key_not_other:
  "isinstance f ForeignKey \<Longrightarrow>
     \<not> isinstance f AutoField \<and> \<not> isinstance f DateField \<and> \<not> isinstance f TimeField"
  by (cases "cls f") (simp_all add: isinstance_def)

lemma date_time_not_other:
  "isinstance f DateField \<or> isinstance f TimeField \<Longrightarrow>
     \<not> isinstance f AutoField \<and> \<not> isinstance f ForeignKey"
  by (cases "cls f") (simp_all add: isinstance_def)

lemma isinstance_drop_unique [simp]: "isinstance (drop_unique f) c = isinstance f c"
  by (simp add: drop_unique_def isinstance_def)

lemma copy_field_preserved:
  assumes "is_preserved self f"
  shows "copy_field pk_of self f =
    Inr (drop_unique (f\<lparr>rel := (rel f)\<lparr>related_name :=
       Some (str_or (related_name (rel f)) (lower (opts_object_name f)) @ ''_historical'')\<rparr>\<rparr>))"
proof -
  from assms have fk: "isinstance f ForeignKey"
    and p: "dict_get (key_conversions self) (name f) CONVERT = PRESERVE"
    by (simp_all add: is_preserved_def)
  have c: "convert_foreign_key pk_of self f =
    Inr (f\<lparr>rel := (rel f)\<lparr>related_name :=
       Some (str_or (related_name (rel f)) (lower (opts_object_name f)) @ ''_historical'')\<rparr>\<rparr>)"
    using fk p by (simp add: convert_foreign_key_def Let_def PRESERVE_def CONVERT_def)
  from foreign_key_not_other [OF fk] show ?thesis
    by (simp add: copy_field_def c replace_auto_field_def strip_auto_now_def isinstance_def)
qed

lemma copy_field_date_time:
  assumes "isinstance f DateField \<or> isinstance f TimeField"
  shows "copy_field pk_of self f =
    Inr (drop_unique (f\<lparr>auto_now := False, auto_now_add := False\<rparr>))"
proof -
  from date_time_not_other [OF assms]
  have n: "\<not> isinstance f AutoField" "\<not> isinstance f ForeignKey" by simp_all
  from n(2) have c: "convert_foreign_key pk_of self f = Inr f"
    by (simp add: convert_foreign_key_def)
  from n(1) assms show ?thesis
    by (simp add: copy_field_def c replace_auto_field_def strip_auto_now_def)
qed

lemma name_drop_unique [simp]: "name (drop_unique f) = name f"
  by (simp add: drop_unique_def)

lemma name_strip_auto_now [simp]: "name (strip_auto_now f) = name f"
  by (simp add: strip_auto_now_def)

lemma name_replace_auto_field [simp]: "name (replace_auto_field f) = name f"
  by (simp add: replace_auto_field_def)

lemma copy_field_name:
  "copy_field pk_of self f = Inr g \<Longrightarrow> name g = shadow_name self f"
  by (auto simp: copy_field_def convert_foreign_key_def shadow_name_def is_converted_def Let_def
        split: if_splits sum.splits)

lemma copy_field_error:
  "copy_field pk_of self f = Inl e \<Longrightarrow>
     invalid_conversion self f \<and> e = Exn ValueError (Msg ''Invalid key conversion type'')"
  by (auto simp: copy_field_def convert_foreign_key_def invalid_conversion_def conversion_of_def
        Let_def split: if_splits sum.splits)


lemma copy_fields_loop_other:
  "copy_fields_loop pk_of self fs acc = Inr attrs \<Longrightarrow> k \<notin> shadow_name self ` set fs \<Longrightarrow>
     map_of attrs k = map_of acc k"
proof (induction fs arbitrary: acc)
  case Nil
  then show ?case by simp
next
  case (Cons f fs)
  from Cons.prems(1) obtain g where g: "copy_field pk_of self f = Inr g"
    and rest: "copy_fields_loop pk_of self fs (AList.update (name g) (FieldAttr g) acc) = Inr attrs"
    by (auto split: sum.splits)
  from Cons.prems(2) have k: "k \<noteq> shadow_name self f" "k \<notin> shadow_name self ` set fs"
    by auto
  from Cons.IH [OF rest k(2)] k(1) copy_field_name [OF g] show ?case
    by (simp add: update_conv')
qed

lemma copy_fields_loop_lookup:
  "copy_fields_loop pk_of self fs acc = Inr attrs \<Longrightarrow> f \<in> set fs \<Longrightarrow>
   distinct (map (shadow_name self) fs) \<Longrightarrow>
     \<exists>g. copy_field pk_of self f = Inr g \<and> map_of attrs (shadow_name self f) = Some (FieldAttr g)"
proof (induction fs arbitrary: acc)
  case Nil
  then show ?case by simp
next
  case (Cons h fs)
  from Cons.prems(1) obtain g where g: "copy_field pk_of self h = Inr g"
    and rest: "copy_fields_loop pk_of self fs (AList.update (name g) (FieldAttr g) acc) = Inr attrs"
    by (auto split: sum.splits)
  from Cons.prems(3) have d: "shadow_name self h \<notin> shadow_name self ` set fs"
    "distinct (map (shadow_name self) fs)" by simp_all
  show ?case
  proof (cases "f = h")
    case True
    from copy_fields_loop_other [OF rest d(1)] copy_field_name [OF g]
    have "map_of attrs (shadow_name self h) = Some (FieldAttr g)"
      by (simp add: update_conv')
    with g True show ?thesis by simp
  next
    case False
    with Cons.prems(2) have "f \<in> set fs" by simp
    from Cons.IH [OF rest this d(2)] show ?thesis .
  qed
qed


lemma copy_fields_loop_valid:
  "\<forall>f \<in> set fs. \<not> invalid_conversion self f \<Longrightarrow>
     \<exists>attrs. copy_fields_loop pk_of self fs acc = Inr attrs"
proof (induction fs arbitrary: acc)
  case Nil
  then show ?case by simp
next
  case (Cons h fs)
  from Cons.prems have "\<not> invalid_conversion self h" by simp
  then obtain g where g: "copy_field pk_of self h = Inr g"
    using copy_field_error [of pk_of self h] by (cases "copy_field pk_of self h") auto
  from Cons.prems have "\<forall>f \<in> set fs. \<not> invalid_conversion self f" by simp
  from Cons.IH [OF this] g show ?case by simp
qed

text \<open>
  Claim C7, as amended. When the fields of a tracked type are copied and no two of them
  are stored under one name, the copy of a foreign key under the PRESERVE policy is stored
  under the key's name, is a foreign key of the same class to the same target, and its
  reverse-relation name is the relation's own reverse name when it has one, and otherwise
  the lowercase object name of \<open>field.opts\<close> (the options of the model that declares
  the key), followed by \<open>_historical\<close>.
\<close>

theorem preserved_foreign_key_shadow_field:
  assumes "copy_fields pk_of self m = Inr attrs"
      and "f \<in> set (meta_fields m)"
      and "is_preserved self f"
      and "distinct (map (shadow_name self) (meta_fields m))"
  shows "\<exists>g. map_of attrs (name f) = Some (FieldAttr g) \<and> cls g = cls f \<and>
             isinstance g ForeignKey \<and> to (rel g) = to (rel f) \<and>
             related_name (rel g) =
               Some (str_or (related_name (rel f)) (lower (opts_object_name f)) @ ''_historical'')"
proof -
  from assms(3) have n: "shadow_name self f = name f"
    by (simp add: shadow_name_def is_converted_def is_preserved_def PRESERVE_def CONVERT_def)
  from copy_fields_loop_lookup [OF assms(1) [unfolded copy_fields_def] assms(2) assms(4)] n
  obtain g where g: "copy_field pk_of self f = Inr g" "map_of attrs (name f) = Some (FieldAttr g)"
    by auto
  from g(1) copy_field_preserved [OF assms(3), of pk_of]
  have e: "g = drop_unique (f\<lparr>rel := (rel f)\<lparr>related_name :=
       Some (str_or (related_name (rel f)) (lower (opts_object_name f)) @ ''_historical'')\<rparr>\<rparr>)"
    by simp
  from assms(3) have fk: "isinstance f ForeignKey" by (simp add: is_preserved_def)
  have c: "cls g = cls f" by (simp add: e drop_unique_def)
  moreover from fk c have "isinstance g ForeignKey" by (simp add: isinstance_def)
  moreover have "to (rel g) = to (rel f)" by (simp add: e drop_unique_def)
  moreover have "related_name (rel g) =
      Some (str_or (related_name (rel f)) (lower (opts_object_name f)) @ ''_historical'')"
    by (simp add: e drop_unique_def)
  ultimately show ?thesis using g(2) by simp
qed


text \<open>The theorem at the test application's preserved key, whose reverse name is \<open>rel_p\<close>.\<close>

theorem preserved_foreign_key_shadow_field_witness:
  "\<exists>attrs g. copy_fields ex_pk_of ex_history ex_model = Inr attrs \<and>
      map_of attrs ''fk'' = Some (FieldAttr g) \<and> cls g = ForeignKey \<and>
      to (rel g) = ''NonversionedModel'' \<and> related_name (rel g) = Some ''rel_p_historical''"
proof -
  have v: "\<forall>f \<in> set (meta_fields ex_model). \<not> invalid_conversion ex_history f"
    by (simp add: ex_defs invalid_conversion_def conversion_of_def)
  from copy_fields_loop_valid [OF v] obtain attrs where
    a: "copy_fields ex_pk_of ex_history ex_model = Inr attrs"
    unfolding copy_fields_def by blast
  have f: "ex_fk \<in> set (meta_fields ex_model)" by (simp add: ex_model_def)
  have p: "is_preserved ex_history ex_fk" by (simp add: ex_defs)
  have d: "distinct (map (shadow_name ex_history) (meta_fields ex_model))"
    by (simp add: ex_defs shadow_name_def is_converted_def)
  from preserved_foreign_key_shadow_field [OF a f p d] obtain g where
    "map_of attrs (name ex_fk) = Some (FieldAttr g)" "cls g = cls ex_fk"
    "to (rel g) = to (rel ex_fk)"
    "related_name (rel g) =
       Some (str_or (related_name (rel ex_fk)) (lower (opts_object_name ex_fk)) @ ''_historical'')"
    by blast
  then have "map_of attrs ''fk'' = Some (FieldAttr g) \<and> cls g = ForeignKey \<and>
      to (rel g) = ''NonversionedModel'' \<and> related_name (rel g) = Some ''rel_p_historical''"
    by (simp add: ex_fk_def new_field_def str_or_def)
  with a show ?thesis by blast
qed

text \<open>
  Claim C7 as stated fails: the copy of the preserved key to \<open>NonversionedModel\<close> has
  the reverse name \<open>rel_p_historical\<close>, which is not the target's lowercase name
  followed by \<open>_historical\<close>.
\<close>

theorem preserved_reverse_name_is_not_target_name:
  "copy_field ex_pk_of ex_history ex_fk =
     Inr (ex_fk\<lparr>rel := \<lparr>to = ''NonversionedModel'', related_name = Some ''rel_p_historical''\<rparr>\<rparr>) \<and>
   ''rel_p_historical'' \<noteq> lower ''NonversionedModel'' @ ''_historical''"
  by (simp add: copy_field_preserved ex_defs drop_unique_def unique_def str_or_def
        lower_def lower_char_def)

text \<open>
  Claim C8. When the fields of a tracked type are copied and no two of them are stored
  under one name, the copy of every date, date-time or time field is stored under the
  field's name with the same class and with \<open>auto_now\<close> and \<open>auto_now_add\<close>
  both off, so that the value the framework stores for it is the value it is given,
  whatever the time and whether or not the row is new. In a sequence of saves whose
  captures can complete (the history manager is attached, the target of every PRESERVEd
  foreign key can be dereferenced and no tracked field is stored under \<open>history_id\<close>
  or \<open>history_type\<close>), the row of each save holds under the field's attribute name
  the value the instance had at that save; in particular, when the instance holds one
  value throughout, every row holds that value.
\<close>

theorem auto_dates_stripped_and_values_kept:
  assumes "copy_fields pk_of self m = Inr attrs"
      and "f \<in> set (meta_fields m)"
      and "isinstance f DateField \<or> isinstance f TimeField"
      and "distinct (map (shadow_name self) (meta_fields m))"
      and "\<forall>ev \<in> set (first # further).
             capture_ok self (snd ev) \<and> inst_fields (snd ev) = meta_fields m"
  shows "(\<exists>g. map_of attrs (name f) = Some (FieldAttr g) \<and> cls g = cls f \<and>
              \<not> auto_now g \<and> \<not> auto_now_add g \<and>
              (\<forall>add now v. pre_save g add now v = v)) \<and>
         (\<exists>db' rows. save_sequence self first further db = (None, db') \<and>
              table db' = table db @ rows \<and>
              map (\<lambda>r. map_of (row_values r) (attname f)) rows =
                map (\<lambda>ev. Some (attr_value (snd ev) (attname f))) (first # further)) \<and>
         ((\<forall>ev \<in> set (first # further). attr_value (snd ev) (attname f) = v) \<longrightarrow>
            (\<exists>db' rows. save_sequence self first further db = (None, db') \<and>
               table db' = table db @ rows \<and> length rows = Suc (length further) \<and>
               (\<forall>r \<in> set rows. map_of (row_values r) (attname f) = Some v)))"
proof -
  from date_time_not_other [OF assms(3)] have n: "shadow_name self f = name f"
    by (simp add: shadow_name_def is_converted_def)
  from copy_fields_loop_lookup [OF assms(1) [unfolded copy_fields_def] assms(2) assms(4)] n
  obtain g where g: "copy_field pk_of self f = Inr g" "map_of attrs (name f) = Some (FieldAttr g)"
    by auto
  from g(1) copy_field_date_time [OF assms(3), of pk_of self]
  have e: "g = drop_unique (f\<lparr>auto_now := False, auto_now_add := False\<rparr>)" by simp
  have flags: "cls g = cls f" "\<not> auto_now g" "\<not> auto_now_add g"
    by (simp_all add: e drop_unique_def)
  then have "\<forall>add now v. pre_save g add now v = v" by (simp add: pre_save_def)
  with g(2) flags have one: "\<exists>g. map_of attrs (name f) = Some (FieldAttr g) \<and> cls g = cls f \<and>
              \<not> auto_now g \<and> \<not> auto_now_add g \<and>
              (\<forall>add now v. pre_save g add now v = v)"
    by blast
  from assms(5) have ok: "\<forall>ev \<in> set (first # further). capture_ok self (snd ev)" by blast
  from save_sequence_rows [OF ok, of db] obtain db' rows where
    r: "save_sequence self first further db = (None, db')"
       "table db' = table db @ rows"
       "map row_values rows =
          map (\<lambda>ev. snapshot (snd ev) (inst_fields (snd ev)) []) (first # further)"
    by auto
  have "map (\<lambda>r. map_of (row_values r) (attname f)) rows =
        map (\<lambda>x. map_of x (attname f)) (map row_values rows)"
    by (simp add: comp_def)
  also have "\<dots> = map (\<lambda>ev. map_of (snapshot (snd ev) (inst_fields (snd ev)) []) (attname f))
                     (first # further)"
    by (simp only: r(3) map_map comp_def)
  also have "\<dots> = map (\<lambda>ev. Some (attr_value (snd ev) (attname f))) (first # further)"
  proof (rule map_cong [OF refl])
    fix ev assume "ev \<in> set (first # further)"
    with assms(5) have "inst_fields (snd ev) = meta_fields m" by blast
    with assms(2) show "map_of (snapshot (snd ev) (inst_fields (snd ev)) []) (attname f) =
        Some (attr_value (snd ev) (attname f))"
      by (simp add: map_of_snapshot)
  qed
  finally have vals: "map (\<lambda>r. map_of (row_values r) (attname f)) rows =
        map (\<lambda>ev. Some (attr_value (snd ev) (attname f))) (first # further)" .
  with r have two: "\<exists>db' rows. save_sequence self first further db = (None, db') \<and>
              table db' = table db @ rows \<and>
              map (\<lambda>r. map_of (row_values r) (attname f)) rows =
                map (\<lambda>ev. Some (attr_value (snd ev) (attname f))) (first # further)"
    by (intro exI [of _ db'] exI [of _ rows] conjI)
  have three: "\<exists>db' rows. save_sequence self first further db = (None, db') \<and>
               table db' = table db @ rows \<and> length rows = Suc (length further) \<and>
               (\<forall>r \<in> set rows. map_of (row_values r) (attname f) = Some v)"
    if same: "\<forall>ev \<in> set (first # further). attr_value (snd ev) (attname f) = v"
  proof -
    from vals have "length (map (\<lambda>r. map_of (row_values r) (attname f)) rows) =
        length (map (\<lambda>ev. Some (attr_value (snd ev) (attname f))) (first # further))"
      by (rule arg_cong)
    then have len: "length rows = Suc (length further)" by simp
    have "map_of (row_values r) (attname f) = Some v" if "r \<in> set rows" for r
    proof -
      from that have "map_of (row_values r) (attname f) \<in>
          set (map (\<lambda>r. map_of (row_values r) (attname f)) rows)" by simp
      then have "map_of (row_values r) (attname f) \<in>
          set (map (\<lambda>ev. Some (attr_value (snd ev) (attname f))) (first # further))"
        by (simp only: vals)
      then have "\<exists>ev \<in> set (first # further).
          map_of (row_values r) (attname f) = Some (attr_value (snd ev) (attname f))"
        by (simp only: set_map image_iff)
      with same show ?thesis by force
    qed
    with r len show ?thesis
      by (intro exI [of _ db'] exI [of _ rows] conjI) simp_all
  qed
  from one two three show ?thesis by blast
qed

text \<open>
  The theorem at the test application's \<open>auto_now_add\<close> date-time field: its copy has
  both flags off, and the rows of two saves made at times 200 and 250 both hold the
  creation value 100.
\<close>

theorem auto_dates_stripped_and_values_kept_witness:
  "(\<exists>attrs g. copy_fields ex_pk_of ex_history ex_model = Inr attrs \<and>
       map_of attrs ''auto_now_add_datetime'' = Some (FieldAttr g) \<and>
       cls g = DateTimeField \<and> \<not> auto_now g \<and> \<not> auto_now_add g \<and>
       pre_save g True (PDateTime 250) (PDateTime 100) = PDateTime 100) \<and>
   (\<exists>db' rows. save_sequence ex_history (200, ex_instance ''v0'' True manager_create)
                  [(250, ex_instance ''v1'' True manager_create)] ex_store = (None, db') \<and>
       table db' = table ex_store @ rows \<and> length rows = 2 \<and>
       (\<forall>r \<in> set rows. map_of (row_values r) ''auto_now_add_datetime'' = Some (PDateTime 100)))"
proof -
  let ?first = "(200::int, ex_instance ''v0'' True manager_create)"
  let ?further = "[(250::int, ex_instance ''v1'' True manager_create)]"
  have v: "\<forall>f \<in> set (meta_fields ex_model). \<not> invalid_conversion ex_history f"
    by (simp add: ex_defs invalid_conversion_def conversion_of_def)
  from copy_fields_loop_valid [OF v] obtain attrs where
    a: "copy_fields ex_pk_of ex_history ex_model = Inr attrs"
    unfolding copy_fields_def by blast
  have f: "ex_created \<in> set (meta_fields ex_model)" by (simp add: ex_model_def)
  have t: "isinstance ex_created DateField \<or> isinstance ex_created TimeField"
    by (simp add: ex_defs)
  have d: "distinct (map (shadow_name ex_history) (meta_fields ex_model))"
    by (simp add: ex_defs shadow_name_def is_converted_def)
  have c: "\<forall>ev \<in> set (?first # ?further).
             capture_ok ex_history (snd ev) \<and> inst_fields (snd ev) = meta_fields ex_model"
    by (simp add: ex_capture_ok) (simp add: ex_instance_def)
  have s: "\<forall>ev \<in> set (?first # ?further).
             attr_value (snd ev) (attname ex_created) = PDateTime 100"
    by (simp add: ex_instance_def ex_created_def ex_values_def)
  note at_ex = auto_dates_stripped_and_values_kept [OF a f t d c, where db = ex_store and v = "PDateTime 100"]
  from at_ex obtain g where g: "map_of attrs (name ex_created) = Some (FieldAttr g)"
    "cls g = cls ex_created" "\<not> auto_now g" "\<not> auto_now_add g"
    "\<forall>add now v. pre_save g add now v = v"
    by blast
  from g have "map_of attrs ''auto_now_add_datetime'' = Some (FieldAttr g) \<and>
       cls g = DateTimeField \<and> \<not> auto_now g \<and> \<not> auto_now_add g \<and>
       pre_save g True (PDateTime 250) (PDateTime 100) = PDateTime 100"
    by (simp add: ex_created_def new_field_def)
  with a have one: "\<exists>attrs g. copy_fields ex_pk_of ex_history ex_model = Inr attrs \<and>
       map_of attrs ''auto_now_add_datetime'' = Some (FieldAttr g) \<and>
       cls g = DateTimeField \<and> \<not> auto_now g \<and> \<not> auto_now_add g \<and>
       pre_save g True (PDateTime 250) (PDateTime 100) = PDateTime 100"
    by blast
  from at_ex s have "\<exists>db' rows. save_sequence ex_history ?first ?further ex_store = (None, db') \<and>
       table db' = table ex_store @ rows \<and> length rows = Suc (length ?further) \<and>
       (\<forall>r \<in> set rows. map_of (row_values r) (attname ex_created) = Some (PDateTime 100))"
    by blast
  then have two: "\<exists>db' rows. save_sequence ex_history ?first ?further ex_store = (None, db') \<and>
       table db' = table ex_store @ rows \<and> length rows = 2 \<and>
       (\<forall>r \<in> set rows. map_of (row_values r) ''auto_now_add_datetime'' = Some (PDateTime 100))"
    by (simp add: ex_created_def numeral_2_eq_2)
  from one two show ?thesis by blast
qed

section \<open>Properties of declaration and finalization\<close>

lemma dict_get_update [simp]: "dict_get (AList.update k v d) k dflt = v"
  by (simp add: dict_get_def update_conv')















lemmas reg_defs = declare_model_def class_prepared_send_def do_pending_lookups_def finalize_def
  finalize_inner_def contribute_to_class_def connect_def get_field_dependencies_def
  create_history_model_def copy_fields_def copy_field_def convert_foreign_key_def
  replace_auto_field_def strip_auto_now_def drop_unique_def unique_def
  monkey_patch_name_map_def monkey_patch_history_properties_def add_lazy_relation_def
  dependency_resolved_def dict_update_def get_extra_fields_def get_meta_options_def
  ex_registry_def ex_versioned_def ex_first_decl_def ex_second_decl_def ex_integer_def
  ex_pk_of_def

text \<open>
  Claim C4 at a type declared with one tracking declaration and at the same type declared
  with two. With one declaration, class preparation leaves exactly one post-save and one
  post-delete receiver for the type and no error. With two, the second is recorded in the
  registry's errors when it is contributed, yet \<open>contribute_to_class\<close> goes on to
  connect its \<open>finalize\<close>, and class preparation leaves two post-save and two
  post-delete receivers for the type.
\<close>

theorem second_declaration_registers_second_pair:
  "(case declare_model [(ex_first_decl, ''history'')] ex_versioned ex_registry of
      (r, s) \<Rightarrow> r = None \<and> app_errors s = [] \<and>
        map fst (post_save_receivers s) = [(0, ''VersionedModel'')] \<and>
        map fst (post_delete_receivers s) = [(0, ''VersionedModel'')]) \<and>
   (case declare_model [(ex_first_decl, ''history''), (ex_second_decl, ''audit'')]
           ex_versioned ex_registry of
      (r, s) \<Rightarrow> r = None \<and>
        app_errors s =
          [(''VersionedModel'', ''Models cannot have more than one HistoricalRecords field.'')] \<and>
        map fst (post_save_receivers s) = [(0, ''VersionedModel''), (1, ''VersionedModel'')] \<and>
        map fst (post_delete_receivers s) = [(0, ''VersionedModel''), (1, ''VersionedModel'')])"
  by (simp add: reg_defs ex_defs Let_def)




text \<open>
  A type with a foreign key to itself. Its \<open>finalize\<close> runs when the framework has
  already resolved the lazy relations kept for the class and has not registered the class
  yet: the relation to the class itself is kept, and the declaration ends with the
  handlers connected and \<open>_finalize\<close> not run.
\<close>

lemma self_reference_left_pending:
  "(case declare_model [(ex_first_decl, ''history'')] ex_node ex_registry of
      (r, s) \<Rightarrow> r = None \<and> loaded s = [''Node''] \<and>
        map fst (pending_lookups s) = [''Node''] \<and> descriptors s = [] \<and>
        trace s = [ConnectPostSave 0 ''Node'', ConnectPostDelete 0 ''Node''])"
  by (simp add: reg_defs ex_defs ex_node_def ex_parent_def Let_def)






section \<open>Properties of the name map retrofit\<close>

lemma dict_eq_iff: "dict_eq a b \<longleftrightarrow> map_of a = map_of b"
proof
  assume eq: "dict_eq a b"
  show "map_of a = map_of b"
  proof
    fix k
    show "map_of a k = map_of b k"
    proof (cases "k \<in> fst ` set a \<union> fst ` set b")
      case True
      with eq show ?thesis by (auto simp: dict_eq_def list_all_iff)
    next
      case False
      then have "map_of a k = None" "map_of b k = None"
        by (simp_all add: map_of_eq_None_iff)
      then show ?thesis by simp
    qed
  qed
next
  assume "map_of a = map_of b"
  then show "dict_eq a b" by (simp add: dict_eq_def list_all_iff)
qed

lemma map_of_rebuilt_map:
  "map_of (rebuilt_map self c hm base) = (map_of base)(manager_name self \<mapsto> history_entry c hm)"
  by (simp add: rebuilt_map_def dict_eq_iff update_conv')

lemma distinct_rebuilt_map:
  "distinct (map fst base) \<Longrightarrow> distinct (map fst (rebuilt_map self c hm base))"
  by (simp add: rebuilt_map_def distinct_update)

lemma init_name_map_ready:
  assumes "map_of (init_name_map_impl s) (meta_class c) = Some (self, c)"
      and "map_of (descriptors s) (object_name c, manager_name self) = Some hm"
      and "app_cache_ready s"
  shows "init_name_map c s =
    (Inr (rebuilt_map self c hm (base_name_maps s (object_name c))),
     s\<lparr>name_map_cache :=
         AList.update (object_name c) (rebuilt_map self c hm (base_name_maps s (object_name c)))
           (name_map_cache s)\<rparr>)"
  using assms
  by (simp add: init_name_map_def patched_init_name_map_def original_init_name_map_def
        update_item_name_map_def rebuilt_map_def history_entry_def Let_def)

lemma init_name_map_not_ready:
  assumes "map_of (init_name_map_impl s) (meta_class c) = Some (self, c)"
      and "map_of (descriptors s) (object_name c, manager_name self) = Some hm"
      and "\<not> app_cache_ready s"
  shows "init_name_map c s = (Inr (base_name_maps s (object_name c)), s)"
  using assms
  by (simp add: init_name_map_def patched_init_name_map_def original_init_name_map_def
        update_item_name_map_def Let_def)

lemma rebuilds_ready:
  assumes "map_of (init_name_map_impl s) (meta_class c) = Some (self, c)"
      and "map_of (descriptors s) (object_name c, manager_name self) = Some hm"
      and "app_cache_ready s"
  shows "rebuilds (Suc n) c s =
     s\<lparr>name_map_cache :=
         AList.update (object_name c) (rebuilt_map self c hm (base_name_maps s (object_name c)))
           (name_map_cache s)\<rparr>"
proof (induction n)
  case 0
  show ?case by (simp add: init_name_map_ready [OF assms])
next
  case (Suc n)
  let ?s1 = "s\<lparr>name_map_cache :=
         AList.update (object_name c) (rebuilt_map self c hm (base_name_maps s (object_name c)))
           (name_map_cache s)\<rparr>"
  have a: "map_of (init_name_map_impl ?s1) (meta_class c) = Some (self, c)"
    "map_of (descriptors ?s1) (object_name c, manager_name self) = Some hm"
    "app_cache_ready ?s1"
    using assms by simp_all
  have "rebuilds (Suc (Suc n)) c s = rebuilds (Suc n) c (snd (init_name_map c s))" by simp
  also have "\<dots> = rebuilds (Suc n) c ?s1" by (simp add: init_name_map_ready [OF assms])
  also have "\<dots> = rebuilds n c (snd (init_name_map c ?s1))" by simp
  also have "snd (init_name_map c ?s1) = ?s1"
    by (simp add: init_name_map_ready [OF a])
  also have "rebuilds n c ?s1 = rebuilds n c (snd (init_name_map c s))"
    by (simp add: init_name_map_ready [OF assms])
  also have "\<dots> = rebuilds (Suc n) c s" by simp
  also note Suc.IH
  finally show ?case .
qed

lemma rebuilds_not_ready:
  assumes "map_of (init_name_map_impl s) (meta_class c) = Some (self, c)"
      and "map_of (descriptors s) (object_name c, manager_name self) = Some hm"
      and "\<not> app_cache_ready s"
  shows "rebuilds n c s = s"
  by (induction n) (simp_all add: init_name_map_not_ready [OF assms])


text \<open>
  Claim C6, as amended. For the tracked type and declaration whose retrofit is the one
  installed on the type's options class, with the manager descriptor attached: once the
  registry is ready, every rebuild of the type's name map, after any number of earlier
  rebuilds, returns one and the same map and leaves it cached; the state after any number
  of rebuilds is the state after one; the map is the base map with the entry under the
  declaration's attribute name set to the synthetic history relation, which replaces
  whatever entry the base map had under that name and leaves every entry under another name
  as it was; and its keys are distinct when those of the base map are. Before the registry
  is ready a rebuild returns the base map and changes nothing.
\<close>

theorem retrofit_rebuild_idempotent:
  assumes installed: "map_of (init_name_map_impl s) (meta_class c) = Some (self, c)"
      and attached: "map_of (descriptors s) (object_name c, manager_name self) = Some hm"
  shows "(app_cache_ready s \<longrightarrow>
           (\<exists>mp. (\<forall>n. fst (init_name_map c (rebuilds n c s)) = Inr mp \<and>
                      map_of (name_map_cache (rebuilds (Suc n) c s)) (object_name c) = Some mp \<and>
                      rebuilds (Suc n) c s = rebuilds (Suc 0) c s) \<and>
                 map_of mp = (map_of (base_name_maps s (object_name c)))
                               (manager_name self \<mapsto> history_entry c hm) \<and>
                 (distinct (map fst (base_name_maps s (object_name c))) \<longrightarrow>
                    distinct (map fst mp)))) \<and>
         (\<not> app_cache_ready s \<longrightarrow>
            (\<forall>n. rebuilds n c s = s \<and>
                 init_name_map c (rebuilds n c s) = (Inr (base_name_maps s (object_name c)), s)))"
proof (intro conjI impI)
  assume ready: "app_cache_ready s"
  let ?mp = "rebuilt_map self c hm (base_name_maps s (object_name c))"
  let ?s1 = "s\<lparr>name_map_cache := AList.update (object_name c) ?mp (name_map_cache s)\<rparr>"
  have a: "map_of (init_name_map_impl ?s1) (meta_class c) = Some (self, c)"
    "map_of (descriptors ?s1) (object_name c, manager_name self) = Some hm"
    "app_cache_ready ?s1"
    using installed attached ready by simp_all
  have r: "rebuilds (Suc n) c s = ?s1" for n
    by (rule rebuilds_ready [OF installed attached ready])
  have "fst (init_name_map c (rebuilds n c s)) = Inr ?mp" for n
  proof (cases n)
    case 0
    then show ?thesis by (simp add: init_name_map_ready [OF installed attached ready])
  next
    case (Suc m)
    then have "rebuilds n c s = ?s1" by (simp only: r)
    then show ?thesis by (simp add: init_name_map_ready [OF a])
  qed
  moreover have "map_of (name_map_cache (rebuilds (Suc n) c s)) (object_name c) = Some ?mp" for n
    unfolding r by (simp add: update_conv')
  moreover have "rebuilds (Suc n) c s = rebuilds (Suc 0) c s" for n
    by (simp only: r)
  ultimately have "\<forall>n. fst (init_name_map c (rebuilds n c s)) = Inr ?mp \<and>
                      map_of (name_map_cache (rebuilds (Suc n) c s)) (object_name c) = Some ?mp \<and>
                      rebuilds (Suc n) c s = rebuilds (Suc 0) c s"
    by blast
  moreover have "map_of ?mp = (map_of (base_name_maps s (object_name c)))
                               (manager_name self \<mapsto> history_entry c hm)"
    by (rule map_of_rebuilt_map)
  moreover have "distinct (map fst (base_name_maps s (object_name c))) \<longrightarrow>
                    distinct (map fst ?mp)"
    by (simp add: distinct_rebuilt_map)
  ultimately show "\<exists>mp. (\<forall>n. fst (init_name_map c (rebuilds n c s)) = Inr mp \<and>
                      map_of (name_map_cache (rebuilds (Suc n) c s)) (object_name c) = Some mp \<and>
                      rebuilds (Suc n) c s = rebuilds (Suc 0) c s) \<and>
                 map_of mp = (map_of (base_name_maps s (object_name c)))
                               (manager_name self \<mapsto> history_entry c hm) \<and>
                 (distinct (map fst (base_name_maps s (object_name c))) \<longrightarrow>
                    distinct (map fst mp))"
    by (intro exI [of _ ?mp] conjI)
next
  assume not_ready: "\<not> app_cache_ready s"
  show "\<forall>n. rebuilds n c s = s \<and>
                 init_name_map c (rebuilds n c s) = (Inr (base_name_maps s (object_name c)), s)"
    by (simp add: rebuilds_not_ready [OF installed attached not_ready]
          init_name_map_not_ready [OF installed attached not_ready])
qed

lemma ex_after_versioned_facts:
  "init_name_map_impl ex_after_versioned =
     [(''Options'', (ex_first_decl\<lparr>manager_name := ''history''\<rparr>, ex_versioned))] \<and>
   map (\<lambda>p. (fst p, hm_name (snd p))) (descriptors ex_after_versioned) =
     [((''VersionedModel'', ''history''), ''HistoricalVersionedModel'')] \<and>
   patched_meta_classes ex_after_versioned = [''Options''] \<and>
   app_cache_ready ex_after_versioned \<and>
   pending_lookups ex_after_versioned = [] \<and>
   class_prepared_receivers ex_after_versioned =
     [((0, ''VersionedModel''), ex_first_decl\<lparr>manager_name := ''history''\<rparr>)] \<and>
   base_name_maps ex_after_versioned = base_name_maps ex_ready_registry"
  by (simp add: ex_after_versioned_def ex_ready_registry_def reg_defs ex_defs Let_def)


text \<open>
  The theorem at \<open>VersionedModel\<close> after its declaration: every rebuild returns the
  same map, with the history relation under \<open>history\<close> and the field \<open>id\<close> as
  before; with the registry not ready the base map is returned and nothing changes.
\<close>

theorem retrofit_rebuild_idempotent_witness:
  "(\<exists>mp. (\<forall>n. fst (init_name_map ex_versioned (rebuilds n ex_versioned ex_after_versioned)) = Inr mp \<and>
              rebuilds (Suc n) ex_versioned ex_after_versioned =
                rebuilds (Suc 0) ex_versioned ex_after_versioned) \<and>
         map_of mp ''history'' =
           Some (RelatedObject ''VersionedModel'' ''HistoricalVersionedModel'' ''id'',
                 None, False, False) \<and>
         map_of mp ''id'' = Some (FieldObj ''id'', None, True, False) \<and>
         distinct (map fst mp)) \<and>
   init_name_map ex_versioned (ex_after_versioned\<lparr>app_cache_ready := False\<rparr>) =
     (Inr [(''id'', (FieldObj ''id'', None, True, False)), (''history'', ex_reverse_entry)],
      ex_after_versioned\<lparr>app_cache_ready := False\<rparr>)"
proof -
  let ?self = "ex_first_decl\<lparr>manager_name := ''history''\<rparr>"
  from ex_after_versioned_facts have
    impl: "init_name_map_impl ex_after_versioned = [(''Options'', (?self, ex_versioned))]"
    and desc: "map (\<lambda>p. (fst p, hm_name (snd p))) (descriptors ex_after_versioned) =
       [((''VersionedModel'', ''history''), ''HistoricalVersionedModel'')]"
    and ready: "app_cache_ready ex_after_versioned"
    and base: "base_name_maps ex_after_versioned = base_name_maps ex_ready_registry"
    by simp_all
  from desc obtain hm where d: "descriptors ex_after_versioned = [((''VersionedModel'', ''history''), hm)]"
    and hn: "hm_name hm = ''HistoricalVersionedModel''"
    by (cases "descriptors ex_after_versioned") auto
  have installed: "map_of (init_name_map_impl ex_after_versioned) (meta_class ex_versioned)
      = Some (?self, ex_versioned)"
    by (simp add: impl ex_versioned_def)
  have attached: "map_of (descriptors ex_after_versioned)
      (object_name ex_versioned, manager_name ?self) = Some hm"
    by (simp add: d ex_versioned_def)
  have b: "base_name_maps ex_after_versioned (object_name ex_versioned) =
      [(''id'', (FieldObj ''id'', None, True, False)), (''history'', ex_reverse_entry)]"
    by (simp add: base ex_ready_registry_def ex_versioned_def)
  have e: "history_entry ex_versioned hm =
      (RelatedObject ''VersionedModel'' ''HistoricalVersionedModel'' ''id'', None, False, False)"
    by (simp add: history_entry_def hn ex_versioned_def ex_id_def new_field_def get_attname_def
          isinstance_def)
  from retrofit_rebuild_idempotent [OF installed attached] ready
  obtain mp where mp:
    "\<forall>n. fst (init_name_map ex_versioned (rebuilds n ex_versioned ex_after_versioned)) = Inr mp \<and>
         map_of (name_map_cache (rebuilds (Suc n) ex_versioned ex_after_versioned))
           (object_name ex_versioned) = Some mp \<and>
         rebuilds (Suc n) ex_versioned ex_after_versioned =
           rebuilds (Suc 0) ex_versioned ex_after_versioned"
    "map_of mp = (map_of (base_name_maps ex_after_versioned (object_name ex_versioned)))
                   (manager_name ?self \<mapsto> history_entry ex_versioned hm)"
    "distinct (map fst (base_name_maps ex_after_versioned (object_name ex_versioned))) \<longrightarrow>
       distinct (map fst mp)"
    by blast
  from mp(2) have l1: "map_of mp ''history'' =
      Some (RelatedObject ''VersionedModel'' ''HistoricalVersionedModel'' ''id'', None, False, False)"
    by (simp add: e)
  from mp(2) have l2: "map_of mp ''id'' = Some (FieldObj ''id'', None, True, False)"
    by (simp add: b)
  from mp(3) have l3: "distinct (map fst mp)" by (simp add: b)
  from mp(1) have l0: "\<forall>n. fst (init_name_map ex_versioned (rebuilds n ex_versioned ex_after_versioned)) = Inr mp \<and>
              rebuilds (Suc n) ex_versioned ex_after_versioned =
                rebuilds (Suc 0) ex_versioned ex_after_versioned"
    by blast
  let ?s0 = "ex_after_versioned\<lparr>app_cache_ready := False\<rparr>"
  have installed0: "map_of (init_name_map_impl ?s0) (meta_class ex_versioned)
      = Some (?self, ex_versioned)"
    using installed by simp
  have attached0: "map_of (descriptors ?s0)
      (object_name ex_versioned, manager_name ?self) = Some hm"
    using attached by simp
  have "\<not> app_cache_ready ?s0" by simp
  with retrofit_rebuild_idempotent [OF installed0 attached0]
  have "\<forall>n. rebuilds n ex_versioned ?s0 = ?s0 \<and>
            init_name_map ex_versioned (rebuilds n ex_versioned ?s0) =
              (Inr (base_name_maps ?s0 (object_name ex_versioned)), ?s0)"
    by blast
  then have "init_name_map ex_versioned (rebuilds 0 ex_versioned ?s0) =
              (Inr (base_name_maps ?s0 (object_name ex_versioned)), ?s0)"
    by blast
  then have l4: "init_name_map ex_versioned ?s0 =
     (Inr [(''id'', (FieldObj ''id'', None, True, False)), (''history'', ex_reverse_entry)], ?s0)"
    using b by simp
  from l0 l1 l2 l3 l4 show ?thesis by blast
qed

lemma ex_after_dated_facts:
  "init_name_map_impl ex_after_dated =
     [(''Options'', (ex_first_decl\<lparr>manager_name := ''history''\<rparr>, ex_versioned))] \<and>
   map (\<lambda>p. (fst p, hm_name (snd p))) (descriptors ex_after_dated) =
     [((''VersionedModel'', ''history''), ''HistoricalVersionedModel''),
      ((''DateFieldTestModel'', ''log''), ''HistoricalDateFieldTestModel'')] \<and>
   app_cache_ready ex_after_dated \<and>
   base_name_maps ex_after_dated = base_name_maps ex_ready_registry"
proof -
  from ex_after_versioned_facts have f:
    "init_name_map_impl ex_after_versioned =
       [(''Options'', (ex_first_decl\<lparr>manager_name := ''history''\<rparr>, ex_versioned))]"
    "map (\<lambda>p. (fst p, hm_name (snd p))) (descriptors ex_after_versioned) =
       [((''VersionedModel'', ''history''), ''HistoricalVersionedModel'')]"
    "patched_meta_classes ex_after_versioned = [''Options'']"
    "app_cache_ready ex_after_versioned"
    "pending_lookups ex_after_versioned = []"
    "class_prepared_receivers ex_after_versioned =
       [((0, ''VersionedModel''), ex_first_decl\<lparr>manager_name := ''history''\<rparr>)]"
    "base_name_maps ex_after_versioned = base_name_maps ex_ready_registry"
    by simp_all
  from f(2) obtain hm where d: "descriptors ex_after_versioned = [((''VersionedModel'', ''history''), hm)]"
    and hn: "hm_name hm = ''HistoricalVersionedModel''"
    by (cases "descriptors ex_after_versioned") auto
  show ?thesis
    by (simp add: ex_after_dated_def f d hn declare_model_def class_prepared_send_def
          do_pending_lookups_def finalize_def finalize_inner_def contribute_to_class_def
          connect_def get_field_dependencies_def create_history_model_def copy_fields_def
          copy_field_def convert_foreign_key_def replace_auto_field_def strip_auto_now_def
          drop_unique_def unique_def monkey_patch_name_map_def dict_update_def
          get_extra_fields_def get_meta_options_def ex_dated_def ex_third_decl_def
          ex_integer_def ex_defs Let_def)
qed

text \<open>
  Claim C6 as stated fails. The name map of \<open>VersionedModel\<close> already had an entry
  named \<open>history\<close>, and the rebuild replaces it by the history relation. And for
  \<open>DateFieldTestModel\<close>, tracked under the name \<open>log\<close> and finalized second, the
  rebuild adds no entry \<open>log\<close>: it adds the entry \<open>history\<close> of
  \<open>VersionedModel\<close>, because the replacement of \<open>init_name_map\<close> is installed
  once per options class and is closed over the first declaration and type.
\<close>

theorem retrofit_overwrites_and_serves_first_type_only:
  "map_of (base_name_maps ex_after_versioned ''VersionedModel'') ''history'' = Some ex_reverse_entry \<and>
   fst (init_name_map ex_versioned ex_after_versioned) =
     Inr [(''id'', (FieldObj ''id'', None, True, False)),
          (''history'', (RelatedObject ''VersionedModel'' ''HistoricalVersionedModel'' ''id'',
                         None, False, False))] \<and>
   manager_name (ex_third_decl\<lparr>manager_name := ''log''\<rparr>) = ''log'' \<and>
   fst (init_name_map ex_dated ex_after_dated) =
     Inr [(''id'', (FieldObj ''id'', None, True, False)),
          (''history'', (RelatedObject ''VersionedModel'' ''HistoricalVersionedModel'' ''id'',
                         None, False, False))]"
proof -
  let ?self = "ex_first_decl\<lparr>manager_name := ''history''\<rparr>"
  from ex_after_versioned_facts have
    impl: "init_name_map_impl ex_after_versioned = [(''Options'', (?self, ex_versioned))]"
    and desc: "map (\<lambda>p. (fst p, hm_name (snd p))) (descriptors ex_after_versioned) =
       [((''VersionedModel'', ''history''), ''HistoricalVersionedModel'')]"
    and ready: "app_cache_ready ex_after_versioned"
    and base: "base_name_maps ex_after_versioned = base_name_maps ex_ready_registry"
    by simp_all
  from desc obtain hm where d: "descriptors ex_after_versioned = [((''VersionedModel'', ''history''), hm)]"
    and hn: "hm_name hm = ''HistoricalVersionedModel''"
    by (cases "descriptors ex_after_versioned") auto
  have one: "map_of (base_name_maps ex_after_versioned ''VersionedModel'') ''history''
      = Some ex_reverse_entry"
    by (simp add: base ex_ready_registry_def)
  have two: "fst (init_name_map ex_versioned ex_after_versioned) =
     Inr [(''id'', (FieldObj ''id'', None, True, False)),
          (''history'', (RelatedObject ''VersionedModel'' ''HistoricalVersionedModel'' ''id'',
                         None, False, False))]"
    by (simp add: init_name_map_def patched_init_name_map_def original_init_name_map_def
          update_item_name_map_def impl d hn ready base ex_ready_registry_def ex_versioned_def
          ex_first_decl_def init_historical_records_def dict_eq_def ex_reverse_entry_def
          ex_id_def new_field_def get_attname_def isinstance_def Let_def)
  from ex_after_dated_facts have
    impl': "init_name_map_impl ex_after_dated = [(''Options'', (?self, ex_versioned))]"
    and desc': "map (\<lambda>p. (fst p, hm_name (snd p))) (descriptors ex_after_dated) =
       [((''VersionedModel'', ''history''), ''HistoricalVersionedModel''),
        ((''DateFieldTestModel'', ''log''), ''HistoricalDateFieldTestModel'')]"
    and ready': "app_cache_ready ex_after_dated"
    and base': "base_name_maps ex_after_dated = base_name_maps ex_ready_registry"
    by simp_all
  from desc' obtain hm1 hm2 where d': "descriptors ex_after_dated =
      [((''VersionedModel'', ''history''), hm1), ((''DateFieldTestModel'', ''log''), hm2)]"
    and hn': "hm_name hm1 = ''HistoricalVersionedModel''"
    by (cases "descriptors ex_after_dated"; cases "tl (descriptors ex_after_dated)") auto
  have three: "fst (init_name_map ex_dated ex_after_dated) =
     Inr [(''id'', (FieldObj ''id'', None, True, False)),
          (''history'', (RelatedObject ''VersionedModel'' ''HistoricalVersionedModel'' ''id'',
                         None, False, False))]"
    by (simp add: init_name_map_def patched_init_name_map_def original_init_name_map_def
          update_item_name_map_def impl' d' hn' ready' base' ex_ready_registry_def
          ex_versioned_def ex_dated_def
          ex_first_decl_def init_historical_records_def dict_eq_def
          ex_id_def new_field_def get_attname_def isinstance_def Let_def)
  from one two three show ?thesis by simp
qed

end
